theory Spec2Isabelle
  imports
    Main
    "HOL-Library.AList"
    "HOL-Library.Sublist"
    "HOL-Library.Char_ord"
    "HOL-Library.List_Lexorder"
    "HOL-Library.Finite_Map"
begin

section \<open>Python values and the library operations the two tools use\<close>

text \<open>
  The schema document returned by \<^verbatim>\<open>yaml.safe_load\<close>, every value handed to
  \<^verbatim>\<open>json.dump\<close> and every value returned by \<^verbatim>\<open>json.load\<close> is a nested value of
  the following shape. Mappings are association lists in insertion order, which is the
  iteration order of a Python \<^verbatim>\<open>dict\<close>; their keys are strings. Numbers are Python's
  unbounded integers (floating point numbers are left out). Strings are lists of 8-bit
  characters; the case conversions below act on the ASCII letters only.
\<close>

datatype pyval =
    PNone
  | PBool bool
  | PInt int
  | PStr string
  | PList "pyval list"
  | PDict "(string \<times> pyval) list"

text \<open>Exceptions are values; every operation that can raise returns a sum.\<close>

datatype py_error =
    AttributeError
  | TypeError
  | KeyError
  | FileNotFoundError
  | FileExistsError
  | IsADirectoryError
  | NotADirectoryError
  | JSONDecodeError
  | YAMLError

text \<open>\<^verbatim>\<open>str.lower()\<close> and \<^verbatim>\<open>str.upper()\<close>: an ASCII letter differs from its other case
  in bit 5 (value 32) only.\<close>

definition lower_char :: "char \<Rightarrow> char" where
  "lower_char c =
     (if CHR ''A'' \<le> c \<and> c \<le> CHR ''Z''
      then (case c of Char b0 b1 b2 b3 b4 b5 b6 b7 \<Rightarrow> Char b0 b1 b2 b3 b4 True b6 b7)
      else c)"

definition upper_char :: "char \<Rightarrow> char" where
  "upper_char c =
     (if CHR ''a'' \<le> c \<and> c \<le> CHR ''z''
      then (case c of Char b0 b1 b2 b3 b4 b5 b6 b7 \<Rightarrow> Char b0 b1 b2 b3 b4 False b6 b7)
      else c)"

definition lower :: "string \<Rightarrow> string" where
  "lower s = map lower_char s"

definition upper :: "string \<Rightarrow> string" where
  "upper s = map upper_char s"

text \<open>\<^verbatim>\<open>needle in haystack\<close> on two strings is the contiguous-substring test
  \<^const>\<open>sublist\<close>; \<^verbatim>\<open>s.startswith(p)\<close> is \<^const>\<open>prefix\<close> and \<^verbatim>\<open>s.endswith(p)\<close> is
  \<^const>\<open>suffix\<close>.\<close>

definition startswith :: "string \<Rightarrow> string \<Rightarrow> bool" where
  "startswith s p = prefix p s"

definition endswith :: "string \<Rightarrow> string \<Rightarrow> bool" where
  "endswith s p = suffix p s"

text \<open>\<^verbatim>\<open>s.strip('/')\<close> removes every leading and every trailing slash.\<close>

definition strip_slashes :: "string \<Rightarrow> string" where
  "strip_slashes s =
     rev (dropWhile (\<lambda>c. c = CHR ''/'') (rev (dropWhile (\<lambda>c. c = CHR ''/'') s)))"

text \<open>\<^verbatim>\<open>isinstance(v, dict)\<close>.\<close>

fun is_dict :: "pyval \<Rightarrow> bool" where
  "is_dict (PDict kvs) = True"
| "is_dict v = False"

text \<open>\<^verbatim>\<open>v.items()\<close>: only a mapping has the attribute.\<close>

fun items :: "pyval \<Rightarrow> py_error + (string \<times> pyval) list" where
  "items (PDict kvs) = Inr kvs"
| "items v = Inl AttributeError"

text \<open>\<^verbatim>\<open>v.get(key, default)\<close>: only a mapping has the attribute.\<close>

fun get :: "pyval \<Rightarrow> string \<Rightarrow> pyval \<Rightarrow> py_error + pyval" where
  "get (PDict kvs) key dflt = Inr (case map_of kvs key of Some v \<Rightarrow> v | None \<Rightarrow> dflt)"
| "get v key dflt = Inl AttributeError"

text \<open>\<^verbatim>\<open>key in v\<close> for a string \<^verbatim>\<open>key\<close>: key membership in a mapping, element
  membership in a sequence, the substring test on a string, and \<^verbatim>\<open>TypeError\<close> on a
  value that is not iterable.\<close>

fun contains :: "pyval \<Rightarrow> string \<Rightarrow> py_error + bool" where
  "contains (PDict kvs) key = Inr (key \<in> fst ` set kvs)"
| "contains (PList vs) key = Inr (PStr key \<in> set vs)"
| "contains (PStr s) key = Inr (sublist key s)"
| "contains v key = Inl TypeError"

text \<open>Iterating a value with \<^verbatim>\<open>for x in v\<close>: the elements of a sequence, the keys of a
  mapping, the characters of a string.\<close>

fun iterate :: "pyval \<Rightarrow> py_error + pyval list" where
  "iterate (PList vs) = Inr vs"
| "iterate (PDict kvs) = Inr (map (\<lambda>kv. PStr (fst kv)) kvs)"
| "iterate (PStr s) = Inr (map (\<lambda>c. PStr [c]) s)"
| "iterate v = Inl TypeError"

text \<open>\<^verbatim>\<open>table.get(key, default)\<close> and \<^verbatim>\<open>key in table\<close> on one of the two constant
  string-keyed tables, for an arbitrary key: a sequence or a mapping is unhashable
  (\<^verbatim>\<open>TypeError\<close>), and no value other than a string equals a string key.\<close>

fun table_get :: "(string \<times> 'a) list \<Rightarrow> pyval \<Rightarrow> 'a \<Rightarrow> py_error + 'a" where
  "table_get table (PStr k) dflt = Inr (case map_of table k of Some v \<Rightarrow> v | None \<Rightarrow> dflt)"
| "table_get table (PList vs) dflt = Inl TypeError"
| "table_get table (PDict kvs) dflt = Inl TypeError"
| "table_get table v dflt = Inr dflt"

fun table_lookup :: "(string \<times> 'a) list \<Rightarrow> pyval \<Rightarrow> py_error + 'a option" where
  "table_lookup table (PStr k) = Inr (map_of table k)"
| "table_lookup table (PList vs) = Inl TypeError"
| "table_lookup table (PDict kvs) = Inl TypeError"
| "table_lookup table v = Inr None"


section \<open>\<^verbatim>\<open>raml_processor.py\<close>: the example generator\<close>

record ApiExample =
  request :: pyval
  response :: pyval
  description :: string

text \<open>\<^verbatim>\<open>ExampleGenerator.__init__\<close>: the table \<^verbatim>\<open>self.example_values\<close>, in the order
  the dictionary literal lists its keys.\<close>

definition example_values :: "(string \<times> pyval) list" where
  "example_values =
     [(''ip'', PStr ''192.168.88.1''),
      (''ipv6'', PStr ''2001:db8::1''),
      (''interface'', PStr ''ether1''),
      (''mac'', PStr ''00:0C:29:45:67:89''),
      (''string'', PStr ''example_value''),
      (''number'', PInt 1),
      (''boolean'', PBool True),
      (''comment'', PStr ''Example comment''),
      (''username'', PStr ''admin''),
      (''password'', PStr ''password123''),
      (''port'', PInt 8080),
      (''vlan'', PInt 100)]"

text \<open>The loop of \<^verbatim>\<open>get_example_value\<close> over the keys of the table: it returns at the
  first key that occurs in the lower-cased parameter name.\<close>

fun scan_keys :: "(string \<times> pyval) list \<Rightarrow> string \<Rightarrow> pyval option" where
  "scan_keys [] name = None"
| "scan_keys ((key, v) # rest) name =
     (if sublist key name then Some v else scan_keys rest name)"

definition get_example_value :: "pyval \<Rightarrow> string \<Rightarrow> py_error + pyval" where
  "get_example_value param_type param_name =
     (case scan_keys example_values (lower param_name) of
        Some v \<Rightarrow> Inr v
      | None \<Rightarrow> table_get example_values param_type (PStr ''example_value''))"

text \<open>The first loop of \<^verbatim>\<open>generate_example_for_endpoint\<close>;
  \<^verbatim>\<open>request_body[param_name] = ...\<close> is the update of an insertion-ordered mapping.\<close>

fun build_request_body ::
  "(string \<times> pyval) list \<Rightarrow> (string \<times> pyval) list \<Rightarrow> py_error + (string \<times> pyval) list" where
  "build_request_body [] request_body = Inr request_body"
| "build_request_body ((param_name, param_info) # rest) request_body =
     (case get param_info ''type'' (PStr ''string'') of
        Inl e \<Rightarrow> Inl e
      | Inr param_type \<Rightarrow>
          (case get_example_value param_type param_name of
             Inl e \<Rightarrow> Inl e
           | Inr v \<Rightarrow> build_request_body rest (AList.update param_name v request_body)))"

text \<open>\<^verbatim>\<open>method.lower()\<close> on the value found under \<^verbatim>\<open>method\<close>: only a string has the
  attribute.\<close>

fun lower_of :: "pyval \<Rightarrow> py_error + string" where
  "lower_of (PStr s) = Inr (lower s)"
| "lower_of v = Inl AttributeError"

fun str_of :: "pyval \<Rightarrow> py_error + string" where
  "str_of (PStr s) = Inr s"
| "str_of v = Inl AttributeError"

definition response_body :: "string \<Rightarrow> (string \<times> pyval) list \<Rightarrow> pyval" where
  "response_body lowered request_body =
     (if lowered = ''get'' then PDict [(''items'', PList [PDict request_body])]
      else if lowered = ''post'' then PDict [(''result'', PStr ''success''), (''ret'', PStr ''done'')]
      else PDict [(''status'', PStr ''success'')])"

definition generate_example_for_endpoint ::
  "string \<Rightarrow> pyval \<Rightarrow> pyval \<Rightarrow> py_error + ApiExample" where
  "generate_example_for_endpoint endpoint_path method params =
     (case items params of
        Inl e \<Rightarrow> Inl e
      | Inr param_items \<Rightarrow>
          (case build_request_body param_items [] of
             Inl e \<Rightarrow> Inl e
           | Inr request_body \<Rightarrow>
               (case lower_of method of
                  Inl e \<Rightarrow> Inl e
                | Inr lowered \<Rightarrow>
                    (case str_of method of
                       Inl e \<Rightarrow> Inl e
                     | Inr m \<Rightarrow>
                         Inr \<lparr>request = PDict [(''method'', method),
                                               (''path'', PStr endpoint_path),
                                               (''body'', PDict request_body)],
                              response = PDict [(''status'', PInt 200),
                                                (''body'', response_body lowered request_body)],
                              description =
                                ''Example '' @ m @ '' request to '' @ endpoint_path\<rparr>))))"

text \<open>\<^verbatim>\<open>examples.__dict__\<close>: the fields of the dataclass as a mapping.\<close>

definition ApiExample_dict :: "ApiExample \<Rightarrow> pyval" where
  "ApiExample_dict ex =
     PDict [(''request'', request ex),
            (''response'', response ex),
            (''description'', PStr (description ex))]"


section \<open>Rendering values as text\<close>

text \<open>\<^verbatim>\<open>sep.join(xs)\<close>.\<close>

definition join :: "string \<Rightarrow> string list \<Rightarrow> string" where
  "join sep xs = (case xs of [] \<Rightarrow> [] | y # ys \<Rightarrow> y @ concat (map (\<lambda>z. sep @ z) ys))"

text \<open>Decimal numerals, as \<^verbatim>\<open>str\<close>, \<^verbatim>\<open>repr\<close> and \<^verbatim>\<open>json.dumps\<close> print an integer.\<close>

fun show_nat :: "nat \<Rightarrow> string" where
  "show_nat n =
     (if n < 10 then [''0123456789'' ! n]
      else show_nat (n div 10) @ [''0123456789'' ! (n mod 10)])"

declare show_nat.simps [simp del]

definition show_int :: "int \<Rightarrow> string" where
  "show_int i = (if i < 0 then CHR ''-'' # show_nat (nat (- i)) else show_nat (nat i))"

definition hex2 :: "char \<Rightarrow> string" where
  "hex2 c = [''0123456789abcdef'' ! (of_char c div 16), ''0123456789abcdef'' ! (of_char c mod 16)]"

text \<open>\<^verbatim>\<open>json.dumps(v, indent=2)\<close> with the default \<^verbatim>\<open>ensure_ascii\<close>: every character
  outside the range from space to tilde is escaped, as are the double quote and the
  backslash.\<close>

definition json_char :: "char \<Rightarrow> string" where
  "json_char c =
     (if c = CHR 0x22 then [CHR 0x5C, CHR 0x22]
      else if c = CHR 0x5C then [CHR 0x5C, CHR 0x5C]
      else if c = CHR 0x0A then [CHR 0x5C, CHR ''n'']
      else if c = CHR 0x0D then [CHR 0x5C, CHR ''r'']
      else if c = CHR 0x09 then [CHR 0x5C, CHR ''t'']
      else if c = CHR 0x08 then [CHR 0x5C, CHR ''b'']
      else if c = CHR 0x0C then [CHR 0x5C, CHR ''f'']
      else if c < CHR '' '' \<or> CHR ''~'' < c then [CHR 0x5C, CHR ''u'', CHR ''0'', CHR ''0''] @ hex2 c
      else [c])"

definition json_string :: "string \<Rightarrow> string" where
  "json_string s = [CHR 0x22] @ concat (map json_char s) @ [CHR 0x22]"

definition newline_indent :: "nat \<Rightarrow> string" where
  "newline_indent lvl = CHR 0x0A # replicate (2 * lvl) CHR '' ''"

primrec dumps_at :: "pyval \<Rightarrow> nat \<Rightarrow> string" where
  "dumps_at PNone = (\<lambda>lvl. ''null'')"
| "dumps_at (PBool b) = (\<lambda>lvl. if b then ''true'' else ''false'')"
| "dumps_at (PInt i) = (\<lambda>lvl. show_int i)"
| "dumps_at (PStr s) = (\<lambda>lvl. json_string s)"
| "dumps_at (PList vs) =
     (\<lambda>lvl. if vs = [] then ''[]''
            else ''['' @ newline_indent (Suc lvl)
                 @ join ('','' @ newline_indent (Suc lvl))
                     (map (\<lambda>f. f (Suc lvl)) (map dumps_at vs))
                 @ newline_indent lvl @ '']'')"
| "dumps_at (PDict kvs) =
     (\<lambda>lvl. if kvs = [] then ''{}''
            else ''{'' @ newline_indent (Suc lvl)
                 @ join ('','' @ newline_indent (Suc lvl))
                     (map (\<lambda>kf. json_string (fst kf) @ '': '' @ snd kf (Suc lvl))
                        (map (map_prod id dumps_at) kvs))
                 @ newline_indent lvl @ ''}'')"

definition json_dumps :: "pyval \<Rightarrow> string" where
  "json_dumps v = dumps_at v 0"

text \<open>\<^verbatim>\<open>repr\<close> of a string: single quotes, unless the string holds a single quote and
  no double quote; the quote in use, the backslash and the control characters are
  escaped.\<close>

definition repr_char :: "char \<Rightarrow> char \<Rightarrow> string" where
  "repr_char q c =
     (if c = q \<or> c = CHR 0x5C then [CHR 0x5C, c]
      else if c = CHR 0x0A then [CHR 0x5C, CHR ''n'']
      else if c = CHR 0x0D then [CHR 0x5C, CHR ''r'']
      else if c = CHR 0x09 then [CHR 0x5C, CHR ''t'']
      else if c < CHR '' '' \<or> c = CHR 0x7F then [CHR 0x5C, CHR ''x''] @ hex2 c
      else [c])"

definition repr_str :: "string \<Rightarrow> string" where
  "repr_str s =
     (let q = (if CHR 0x27 \<in> set s \<and> CHR 0x22 \<notin> set s then CHR 0x22 else CHR 0x27)
      in [q] @ concat (map (repr_char q) s) @ [q])"

primrec repr :: "pyval \<Rightarrow> string" where
  "repr PNone = ''None''"
| "repr (PBool b) = (if b then ''True'' else ''False'')"
| "repr (PInt i) = show_int i"
| "repr (PStr s) = repr_str s"
| "repr (PList vs) = ''['' @ join '', '' (map repr vs) @ '']''"
| "repr (PDict kvs) =
     ''{'' @ join '', '' (map (\<lambda>kr. repr_str (fst kr) @ '': '' @ snd kr) (map (map_prod id repr) kvs))
     @ ''}''"

text \<open>A value interpolated into an f-string: \<^verbatim>\<open>str(v)\<close>.\<close>

fun format :: "pyval \<Rightarrow> string" where
  "format (PStr s) = s"
| "format v = repr v"

text \<open>The truth value of a value in a condition.\<close>

fun truthy :: "pyval \<Rightarrow> bool" where
  "truthy PNone = False"
| "truthy (PBool b) = b"
| "truthy (PInt i) = (i \<noteq> 0)"
| "truthy (PStr s) = (s \<noteq> [])"
| "truthy (PList vs) = (vs \<noteq> [])"
| "truthy (PDict kvs) = (kvs \<noteq> [])"

text \<open>\<^verbatim>\<open>v[key]\<close> for a string \<^verbatim>\<open>key\<close>.\<close>

fun getitem :: "pyval \<Rightarrow> string \<Rightarrow> py_error + pyval" where
  "getitem (PDict kvs) key = (case map_of kvs key of Some v \<Rightarrow> Inr v | None \<Rightarrow> Inl KeyError)"
| "getitem v key = Inl TypeError"


section \<open>\<^verbatim>\<open>raml_processor.py\<close>: the documentation generator\<close>

record ValidationRule =
  rule_type :: string
  pattern :: string
  rule_description :: string
  example :: string

text \<open>\<^verbatim>\<open>ApiDocGenerator.__init__\<close>: the table \<^verbatim>\<open>self.validation_rules\<close>. The fields
  \<^verbatim>\<open>type\<close> and \<^verbatim>\<open>description\<close> of the dataclass are \<^const>\<open>rule_type\<close> and
  \<^const>\<open>rule_description\<close> here.\<close>

definition validation_rules :: "(string \<times> ValidationRule) list" where
  "validation_rules =
     [(''ip'',
        \<lparr>rule_type = ''ip'',
         pattern = ''^('' @ [CHR 0x5C] @ ''d{1,3}'' @ [CHR 0x5C] @ ''.){3}'' @ [CHR 0x5C]
                   @ ''d{1,3}(/'' @ [CHR 0x5C] @ ''d{1,2})?$'',
         rule_description = ''IPv4 address with optional CIDR'',
         example = ''192.168.88.1''\<rparr>),
      (''mac'',
        \<lparr>rule_type = ''mac'',
         pattern = ''^([0-9A-Fa-f]{2}[:-]){5}([0-9A-Fa-f]{2})$'',
         rule_description = ''MAC address in XX:XX:XX:XX:XX:XX format'',
         example = ''00:0C:29:45:67:89''\<rparr>),
      (''interface'',
        \<lparr>rule_type = ''interface'',
         pattern = ''^[a-zA-Z0-9-_]+$'',
         rule_description = ''Interface name'',
         example = ''ether1''\<rparr>)]"

text \<open>\<^verbatim>\<open>rule.__dict__\<close>.\<close>

definition ValidationRule_dict :: "ValidationRule \<Rightarrow> pyval" where
  "ValidationRule_dict r =
     PDict [(''type'', PStr (rule_type r)),
            (''pattern'', PStr (pattern r)),
            (''description'', PStr (rule_description r)),
            (''example'', PStr (example r))]"

text \<open>The loop over \<^verbatim>\<open>details['parameters'].items()\<close> in \<^verbatim>\<open>generate_markdown\<close>: one
  table row for each parameter.\<close>

fun parameter_rows :: "(string \<times> pyval) list \<Rightarrow> py_error + string list" where
  "parameter_rows [] = Inr []"
| "parameter_rows ((param, param_details) # rest) =
     (case get param_details ''required'' (PBool False) of
        Inl e \<Rightarrow> Inl e
      | Inr req \<Rightarrow>
          (case get param_details ''description'' (PStr []) of
             Inl e \<Rightarrow> Inl e
           | Inr desc \<Rightarrow>
               (case get param_details ''type'' (PStr []) of
                  Inl e \<Rightarrow> Inl e
                | Inr ty \<Rightarrow>
                    (case parameter_rows rest of
                       Inl e \<Rightarrow> Inl e
                     | Inr rows \<Rightarrow>
                         Inr ((''| '' @ param @ '' | '' @ format ty @ '' | ''
                               @ (if truthy req then ''Yes'' else ''No'')
                               @ '' | '' @ format desc @ '' |'' @ [CHR 0x0A]) # rows)))))"

text \<open>One of the two optional fenced blocks of a method section.\<close>

definition fenced_block :: "string \<Rightarrow> string \<Rightarrow> pyval \<Rightarrow> py_error + string list" where
  "fenced_block heading key details =
     (case contains details key of
        Inl e \<Rightarrow> Inl e
      | Inr False \<Rightarrow> Inr []
      | Inr True \<Rightarrow>
          (case getitem details key of
             Inl e \<Rightarrow> Inl e
           | Inr v \<Rightarrow>
               Inr [[CHR 0x0A] @ heading @ [CHR 0x0A],
                    ''```json'' @ [CHR 0x0A],
                    json_dumps v,
                    [CHR 0x0A] @ ''```'' @ [CHR 0x0A]]))"

text \<open>The body of the loop over \<^verbatim>\<open>endpoint_data.get('endpoints', {}).items()\<close>.\<close>

definition method_section :: "string \<Rightarrow> pyval \<Rightarrow> py_error + string list" where
  "method_section method details =
     (case contains details ''parameters'' of
        Inl e \<Rightarrow> Inl e
      | Inr has_parameters \<Rightarrow>
          (case (if has_parameters
                 then (case getitem details ''parameters'' of
                         Inl e \<Rightarrow> Inl e
                       | Inr ps \<Rightarrow>
                           (case items ps of Inl e \<Rightarrow> Inl e | Inr kvs \<Rightarrow> parameter_rows kvs))
                 else Inr []) of
             Inl e \<Rightarrow> Inl e
           | Inr rows \<Rightarrow>
               (case fenced_block ''#### Examples'' ''examples'' details of
                  Inl e \<Rightarrow> Inl e
                | Inr examples_block \<Rightarrow>
                    (case fenced_block ''#### Validation Rules'' ''validation'' details of
                       Inl e \<Rightarrow> Inl e
                     | Inr validation_block \<Rightarrow>
                         Inr ([''### '' @ upper method @ [CHR 0x0A],
                               ''#### Parameters'' @ [CHR 0x0A],
                               ''| Name | Type | Required | Description |'' @ [CHR 0x0A],
                               ''|------|------|----------|-------------|'' @ [CHR 0x0A]]
                              @ rows @ examples_block @ validation_block)))))"

fun method_sections :: "(string \<times> pyval) list \<Rightarrow> py_error + string list" where
  "method_sections [] = Inr []"
| "method_sections ((method, details) # rest) =
     (case method_section method details of
        Inl e \<Rightarrow> Inl e
      | Inr md \<Rightarrow>
          (case method_sections rest of
             Inl e \<Rightarrow> Inl e
           | Inr others \<Rightarrow> Inr (md @ others)))"

text \<open>\<^verbatim>\<open>ApiDocGenerator.generate_markdown\<close>. The argument \<open>now\<close> is the text that
  \<^verbatim>\<open>datetime.now().strftime('%Y-%m-%d %H:%M:%S')\<close> yields when the function runs.\<close>

definition generate_markdown :: "string \<Rightarrow> pyval \<Rightarrow> string \<Rightarrow> py_error + string" where
  "generate_markdown now endpoint_data path =
     (case contains endpoint_data ''description'' of
        Inl e \<Rightarrow> Inl e
      | Inr has_description \<Rightarrow>
          (case (if has_description
                 then (case getitem endpoint_data ''description'' of
                         Inl e \<Rightarrow> Inl e
                       | Inr d \<Rightarrow> Inr [''## Description'' @ [CHR 0x0A], format d @ [CHR 0x0A]])
                 else Inr []) of
             Inl e \<Rightarrow> Inl e
           | Inr description_section \<Rightarrow>
               (case get endpoint_data ''endpoints'' (PDict []) of
                  Inl e \<Rightarrow> Inl e
                | Inr endpoints \<Rightarrow>
                    (case items endpoints of
                       Inl e \<Rightarrow> Inl e
                     | Inr methods \<Rightarrow>
                         (case method_sections methods of
                            Inl e \<Rightarrow> Inl e
                          | Inr sections \<Rightarrow>
                              Inr (concat
                                ([''# '' @ path @ '' API Documentation'' @ [CHR 0x0A],
                                  ''Generated on: '' @ now @ [CHR 0x0A]]
                                 @ description_section
                                 @ [''## Endpoints'' @ [CHR 0x0A]]
                                 @ sections)))))))"


section \<open>Paths and the file system\<close>

text \<open>
  A path is the list of its components below the root of the file system; the output
  directory of the splitter and the directory the validator checks are given as such a
  list. \<^verbatim>\<open>base / s\<close> splits \<open>s\<close> at the slashes and drops empty components and
  \<^verbatim>\<open>.\<close> components, as \<^verbatim>\<open>pathlib\<close> does; a string that starts with a slash replaces
  the base. Component names are otherwise opaque.
\<close>

type_synonym path = "string list"

fun split_slash :: "string \<Rightarrow> string list" where
  "split_slash [] = [[]]"
| "split_slash (c # cs) =
     (if c = CHR ''/'' then [] # split_slash cs
      else (case split_slash cs of w # ws \<Rightarrow> (c # w) # ws | [] \<Rightarrow> [[c]]))"

definition parts :: "string \<Rightarrow> path" where
  "parts s = filter (\<lambda>w. w \<noteq> [] \<and> w \<noteq> ''.'') (split_slash s)"

definition joinpath :: "path \<Rightarrow> string \<Rightarrow> path" where
  "joinpath base s = (if startswith s ''/'' then parts s else base @ parts s)"

text \<open>\<^verbatim>\<open>p.name\<close>: the last component, empty for the root.\<close>

definition name_of :: "path \<Rightarrow> string" where
  "name_of p = (if p = [] then [] else last p)"

text \<open>
  A file is modelled by what \<^verbatim>\<open>json.dump\<close>, \<^verbatim>\<open>f.write\<close>, \<^verbatim>\<open>json.load\<close> and
  \<^verbatim>\<open>read_text\<close> exchange with it: \<open>JsonText v\<close> is a file whose text is the JSON
  document of the value \<open>v\<close> (it is what \<^verbatim>\<open>json.dump(v, f, indent=2)\<close> leaves and
  \<^verbatim>\<open>json.load\<close> returns \<open>v\<close> from it); \<open>PlainText s\<close> is a file with the text \<open>s\<close>
  that is not a JSON document (\<^verbatim>\<open>json.load\<close> raises \<^verbatim>\<open>JSONDecodeError\<close> on it).
  The file system maps the paths that exist, the root \<open>[]\<close> among them, to
  directories and files. Permissions, links and storage limits are not modelled.
\<close>

datatype content = JsonText pyval | PlainText string

datatype node = Dir | File content

type_synonym filesystem = "(path, node) fmap"

definition lookup :: "filesystem \<Rightarrow> path \<Rightarrow> node option" where
  "lookup fs p = fmlookup fs p"

definition exists :: "filesystem \<Rightarrow> path \<Rightarrow> bool" where
  "exists fs p = (lookup fs p \<noteq> None)"

definition is_dir :: "filesystem \<Rightarrow> path \<Rightarrow> bool" where
  "is_dir fs p = (lookup fs p = Some Dir)"

text \<open>\<^verbatim>\<open>os.mkdir\<close>: the system call behind \<^verbatim>\<open>Path.mkdir\<close>.\<close>

definition os_mkdir :: "path \<Rightarrow> filesystem \<Rightarrow> py_error + filesystem" where
  "os_mkdir p fs =
     (case lookup fs p of
        Some n \<Rightarrow> Inl FileExistsError
      | None \<Rightarrow>
          (case lookup fs (butlast p) of
             None \<Rightarrow> Inl FileNotFoundError
           | Some (File c) \<Rightarrow> Inl NotADirectoryError
           | Some Dir \<Rightarrow> Inr (fmupd p Dir fs)))"

text \<open>\<^verbatim>\<open>Path.mkdir(parents=False, exist_ok=...)\<close>: a failure other than a missing
  parent is ignored when \<^verbatim>\<open>exist_ok\<close> is set and the path is a directory.\<close>

definition mkdir :: "bool \<Rightarrow> path \<Rightarrow> filesystem \<Rightarrow> py_error + filesystem" where
  "mkdir exist_ok p fs =
     (case os_mkdir p fs of
        Inr fs' \<Rightarrow> Inr fs'
      | Inl e \<Rightarrow>
          (if e = FileNotFoundError then Inl e
           else if \<not> exist_ok \<or> \<not> is_dir fs p then Inl e
           else Inr fs))"

text \<open>\<^verbatim>\<open>Path.mkdir(parents=True, exist_ok=...)\<close>: on a missing parent the parent is made
  first, with \<^verbatim>\<open>parents=True, exist_ok=True\<close>, and the directory itself is then made
  without \<^verbatim>\<open>parents\<close>.\<close>

function mkdir_parents :: "bool \<Rightarrow> path \<Rightarrow> filesystem \<Rightarrow> py_error + filesystem" where
  "mkdir_parents exist_ok p fs =
     (case os_mkdir p fs of
        Inr fs' \<Rightarrow> Inr fs'
      | Inl e \<Rightarrow>
          (if e = FileNotFoundError then
             (if p = [] then Inl e
              else (case mkdir_parents True (butlast p) fs of
                      Inl e' \<Rightarrow> Inl e'
                    | Inr fs1 \<Rightarrow> mkdir exist_ok p fs1))
           else if \<not> exist_ok \<or> \<not> is_dir fs p then Inl e
           else Inr fs))"
  by pat_completeness auto
termination
  by (relation "measure (\<lambda>(exist_ok, p, fs). length p)") auto

declare mkdir_parents.simps [simp del]

text \<open>\<^verbatim>\<open>open(p, 'w')\<close> followed by the write of the whole content: the file is created
  or overwritten; nothing is checked but that the path can be opened for writing.\<close>

definition write_file :: "path \<Rightarrow> content \<Rightarrow> filesystem \<Rightarrow> py_error + filesystem" where
  "write_file p c fs =
     (case lookup fs p of
        Some Dir \<Rightarrow> Inl IsADirectoryError
      | Some (File old) \<Rightarrow> Inr (fmupd p (File c) fs)
      | None \<Rightarrow>
          (case lookup fs (butlast p) of
             None \<Rightarrow> Inl FileNotFoundError
           | Some (File old) \<Rightarrow> Inl NotADirectoryError
           | Some Dir \<Rightarrow> Inr (fmupd p (File c) fs)))"

text \<open>\<^verbatim>\<open>open(p)\<close> followed by \<^verbatim>\<open>json.load\<close>.\<close>

definition read_json :: "filesystem \<Rightarrow> path \<Rightarrow> py_error + pyval" where
  "read_json fs p =
     (case lookup fs p of
        None \<Rightarrow> Inl FileNotFoundError
      | Some Dir \<Rightarrow> Inl IsADirectoryError
      | Some (File (JsonText v)) \<Rightarrow> Inr v
      | Some (File (PlainText s)) \<Rightarrow> Inl JSONDecodeError)"

text \<open>\<^verbatim>\<open>p.read_text()\<close>; the text of a JSON document is its rendering by
  \<^const>\<open>json_dumps\<close>.\<close>

definition read_text :: "filesystem \<Rightarrow> path \<Rightarrow> py_error + string" where
  "read_text fs p =
     (case lookup fs p of
        None \<Rightarrow> Inl FileNotFoundError
      | Some Dir \<Rightarrow> Inl IsADirectoryError
      | Some (File (JsonText v)) \<Rightarrow> Inr (json_dumps v)
      | Some (File (PlainText s)) \<Rightarrow> Inr s)"

text \<open>
  Directory listings. The order in which \<^verbatim>\<open>glob\<close> and \<^verbatim>\<open>rglob\<close> yield their matches
  is left to the operating system; the model lists paths in increasing order.
  \<open>glob_children\<close> is \<^verbatim>\<open>d.glob('*/')\<close> (both callers test \<^verbatim>\<open>is_dir()\<close> on every
  match themselves), \<open>glob_suffix fs d suf\<close> is \<^verbatim>\<open>d.glob('*' + suf)\<close> and
  \<open>rglob_suffix fs d suf\<close> is \<^verbatim>\<open>d.rglob('*' + suf)\<close>.
\<close>

definition entries :: "filesystem \<Rightarrow> path list" where
  "entries fs = sorted_list_of_fset (fmdom fs)"

definition glob_children :: "filesystem \<Rightarrow> path \<Rightarrow> path list" where
  "glob_children fs d =
     (if is_dir fs d then filter (\<lambda>q. q \<noteq> [] \<and> butlast q = d) (entries fs) else [])"

definition glob_suffix :: "filesystem \<Rightarrow> path \<Rightarrow> string \<Rightarrow> path list" where
  "glob_suffix fs d suf = filter (\<lambda>q. endswith (name_of q) suf) (glob_children fs d)"

definition rglob_suffix :: "filesystem \<Rightarrow> path \<Rightarrow> string \<Rightarrow> path list" where
  "rglob_suffix fs d suf =
     (if is_dir fs d
      then filter (\<lambda>q. strict_prefix d q \<and> endswith (name_of q) suf) (entries fs)
      else [])"


section \<open>\<^verbatim>\<open>raml_processor.py\<close>: the splitter\<close>

text \<open>
  The wall clock: \<open>clock i\<close> is the text of the \<open>i\<close>-th reading of
  \<^verbatim>\<open>datetime.now()\<close> during a run, in the format of the call that reads it. The state
  threaded through a run is the file system and the number of readings taken so far.
  A failed run returns the exception only; log output is not modelled.
\<close>

type_synonym clock = "nat \<Rightarrow> string"

type_synonym state = "filesystem \<times> nat"

fun mkdir_each :: "path list \<Rightarrow> filesystem \<Rightarrow> py_error + filesystem" where
  "mkdir_each [] fs = Inr fs"
| "mkdir_each (dir_path # rest) fs =
     (case mkdir_parents True dir_path fs of
        Inl e \<Rightarrow> Inl e
      | Inr fs' \<Rightarrow> mkdir_each rest fs')"

definition create_directory_structure :: "path \<Rightarrow> filesystem \<Rightarrow> py_error + filesystem" where
  "create_directory_structure base_path fs =
     mkdir_each [base_path, joinpath base_path ''docs'', joinpath base_path ''examples''] fs"

definition create_family_directory ::
  "path \<Rightarrow> string \<Rightarrow> filesystem \<Rightarrow> py_error + (path \<times> filesystem)" where
  "create_family_directory base_path family fs =
     (let family_dir = joinpath base_path family in
      case mkdir_parents True family_dir fs of
        Inl e \<Rightarrow> Inl e
      | Inr fs1 \<Rightarrow>
          (case mkdir True (joinpath family_dir ''docs'') fs1 of
             Inl e \<Rightarrow> Inl e
           | Inr fs2 \<Rightarrow> Inr (family_dir, fs2)))"

text \<open>The loop of \<^verbatim>\<open>get_validation_rules\<close>.\<close>

fun build_rules ::
  "(string \<times> pyval) list \<Rightarrow> (string \<times> pyval) list \<Rightarrow> py_error + (string \<times> pyval) list" where
  "build_rules [] rules = Inr rules"
| "build_rules ((param, details) # rest) rules =
     (case get details ''type'' (PStr ''string'') of
        Inl e \<Rightarrow> Inl e
      | Inr param_type \<Rightarrow>
          (case table_lookup validation_rules param_type of
             Inl e \<Rightarrow> Inl e
           | Inr None \<Rightarrow> build_rules rest rules
           | Inr (Some rule) \<Rightarrow>
               build_rules rest (AList.update param (ValidationRule_dict rule) rules)))"

definition get_validation_rules :: "pyval \<Rightarrow> py_error + pyval" where
  "get_validation_rules data =
     (case get data ''parameters'' (PDict []) of
        Inl e \<Rightarrow> Inl e
      | Inr params \<Rightarrow>
          (case items params of
             Inl e \<Rightarrow> Inl e
           | Inr kvs \<Rightarrow>
               (case build_rules kvs [] of
                  Inl e \<Rightarrow> Inl e
                | Inr rules \<Rightarrow> Inr (PDict rules))))"

definition endpoint_file :: "path \<Rightarrow> string \<Rightarrow> path" where
  "endpoint_file family_dir endpoint = joinpath family_dir (strip_slashes endpoint @ ''.json'')"

definition doc_file :: "path \<Rightarrow> string \<Rightarrow> path" where
  "doc_file family_dir endpoint =
     joinpath (joinpath family_dir ''docs'') (strip_slashes endpoint @ ''.md'')"

definition process_endpoint ::
  "clock \<Rightarrow> string \<Rightarrow> pyval \<Rightarrow> path \<Rightarrow> state \<Rightarrow> py_error + (pyval \<times> state)" where
  "process_endpoint clock endpoint data family_dir st =
     (case get data ''method'' (PStr ''GET'') of
        Inl e \<Rightarrow> Inl e
      | Inr method \<Rightarrow>
     (case get data ''parameters'' (PDict []) of
        Inl e \<Rightarrow> Inl e
      | Inr params \<Rightarrow>
     (case generate_example_for_endpoint endpoint method params of
        Inl e \<Rightarrow> Inl e
      | Inr examples \<Rightarrow>
     (case get_validation_rules data of
        Inl e \<Rightarrow> Inl e
      | Inr validation \<Rightarrow>
     (let enhanced_data = PDict [(''endpoint'', PStr endpoint),
                                 (''data'', data),
                                 (''examples'', ApiExample_dict examples),
                                 (''validation'', validation)]
      in
     (case write_file (endpoint_file family_dir endpoint) (JsonText enhanced_data) (fst st) of
        Inl e \<Rightarrow> Inl e
      | Inr fs1 \<Rightarrow>
     (case generate_markdown (clock (snd st)) enhanced_data endpoint of
        Inl e \<Rightarrow> Inl e
      | Inr doc_content \<Rightarrow>
     (case write_file (doc_file family_dir endpoint) (PlainText doc_content) fs1 of
        Inl e \<Rightarrow> Inl e
      | Inr fs2 \<Rightarrow> Inr (enhanced_data, (fs2, Suc (snd st)))))))))))"

text \<open>The loop of \<^verbatim>\<open>process_family\<close> over \<^verbatim>\<open>endpoints.items()\<close>.\<close>

fun process_endpoints ::
  "clock \<Rightarrow> path \<Rightarrow> (string \<times> pyval) list \<Rightarrow> pyval list \<Rightarrow> state
   \<Rightarrow> py_error + (pyval list \<times> state)" where
  "process_endpoints clock family_dir [] processed st = Inr (processed, st)"
| "process_endpoints clock family_dir ((endpoint, data) # rest) processed st =
     (if is_dict data then
        (case process_endpoint clock endpoint data family_dir st of
           Inl e \<Rightarrow> Inl e
         | Inr (processed_endpoint, st') \<Rightarrow>
             process_endpoints clock family_dir rest (processed @ [processed_endpoint]) st')
      else process_endpoints clock family_dir rest processed st)"

definition process_family ::
  "clock \<Rightarrow> string \<Rightarrow> pyval \<Rightarrow> path \<Rightarrow> state \<Rightarrow> py_error + state" where
  "process_family clock family endpoints family_dir st =
     (case items endpoints of
        Inl e \<Rightarrow> Inl e
      | Inr kvs \<Rightarrow>
          (case process_endpoints clock family_dir kvs [] st of
             Inl e \<Rightarrow> Inl e
           | Inr (processed, st') \<Rightarrow>
               (case write_file (family_dir @ [''_index.json''])
                      (JsonText (PDict [(''family'', PStr family),
                                        (''endpoints'', PList processed),
                                        (''examples'', PList [])]))
                      (fst st') of
                  Inl e \<Rightarrow> Inl e
                | Inr fs' \<Rightarrow> Inr (fs', snd st'))))"

text \<open>The loop of \<^verbatim>\<open>split_raml\<close> over \<^verbatim>\<open>raml_content.items()\<close>.\<close>

fun split_families ::
  "clock \<Rightarrow> path \<Rightarrow> (string \<times> pyval) list \<Rightarrow> state \<Rightarrow> py_error + state" where
  "split_families clock base_path [] st = Inr st"
| "split_families clock base_path ((family, endpoints) # rest) st =
     (if startswith family ''/'' then
        (case create_family_directory base_path (strip_slashes family) (fst st) of
           Inl e \<Rightarrow> Inl e
         | Inr (family_dir, fs1) \<Rightarrow>
             (case process_family clock family endpoints family_dir (fs1, snd st) of
                Inl e \<Rightarrow> Inl e
              | Inr st' \<Rightarrow> split_families clock base_path rest st'))
      else split_families clock base_path rest st)"

definition split_raml :: "clock \<Rightarrow> path \<Rightarrow> pyval \<Rightarrow> state \<Rightarrow> py_error + state" where
  "split_raml clock base_path raml_content st =
     (case items raml_content of
        Inl e \<Rightarrow> Inl e
      | Inr kvs \<Rightarrow> split_families clock base_path kvs st)"

text \<open>The loop of \<^verbatim>\<open>generate_index\<close> over \<^verbatim>\<open>self.base_path.glob('*/')\<close>.\<close>

fun collect_families :: "filesystem \<Rightarrow> path list \<Rightarrow> pyval list \<Rightarrow> py_error + pyval list" where
  "collect_families fs [] families = Inr families"
| "collect_families fs (family_dir # rest) families =
     (if is_dir fs family_dir \<and> \<not> startswith (name_of family_dir) ''.'' then
        (if exists fs (family_dir @ [''_index.json'']) then
           (case read_json fs (family_dir @ [''_index.json'']) of
              Inl e \<Rightarrow> Inl e
            | Inr family_data \<Rightarrow> collect_families fs rest (families @ [family_data]))
         else collect_families fs rest families)
      else collect_families fs rest families)"

definition generate_index :: "clock \<Rightarrow> path \<Rightarrow> state \<Rightarrow> py_error + state" where
  "generate_index clock base_path st =
     (case collect_families (fst st) (glob_children (fst st) base_path) [] of
        Inl e \<Rightarrow> Inl e
      | Inr families \<Rightarrow>
          (case write_file (base_path @ [''index.json''])
                 (JsonText (PDict [(''generated_at'', PStr (clock (snd st))),
                                   (''families'', PList families)]))
                 (fst st) of
             Inl e \<Rightarrow> Inl e
           | Inr fs' \<Rightarrow> Inr (fs', Suc (snd st))))"

text \<open>\<^verbatim>\<open>EnhancedRamlSplitter.process_raml\<close>. \<open>loaded\<close> is the outcome of
  \<^verbatim>\<open>load_raml\<close>: the document that \<^verbatim>\<open>yaml.safe_load\<close> returns, or the exception it
  or \<^verbatim>\<open>open\<close> raises. The handler of \<^verbatim>\<open>process_raml\<close> logs and raises again.\<close>

definition process_raml ::
  "clock \<Rightarrow> path \<Rightarrow> py_error + pyval \<Rightarrow> filesystem \<Rightarrow> py_error + filesystem" where
  "process_raml clock base_path loaded fs =
     (case create_directory_structure base_path fs of
        Inl e \<Rightarrow> Inl e
      | Inr fs1 \<Rightarrow>
          (case loaded of
             Inl e \<Rightarrow> Inl e
           | Inr raml_content \<Rightarrow>
               (case split_raml clock base_path raml_content (fs1, 0) of
                  Inl e \<Rightarrow> Inl e
                | Inr st \<Rightarrow>
                    (case generate_index clock base_path st of
                       Inl e \<Rightarrow> Inl e
                     | Inr st' \<Rightarrow> Inr (fst st')))))"


section \<open>\<^verbatim>\<open>raml_validator.py\<close>: the validator\<close>

text \<open>
  An entry of \<^verbatim>\<open>self.errors\<close> or \<^verbatim>\<open>self.warnings\<close>. Each constructor stands for one
  message template of the source and carries the values the template interpolates; an
  exception \<open>e\<close> stands for its text \<^verbatim>\<open>str(e)\<close>.
\<close>

datatype finding =
    Missing_required_directory string
    \<comment> \<open>\<^verbatim>\<open>Missing required directory: {dir_name}\<close>\<close>
  | Missing_docs_directory_in string
    \<comment> \<open>\<^verbatim>\<open>Missing docs directory in {family_dir.name}\<close>\<close>
  | Missing_index_json_in string
    \<comment> \<open>\<^verbatim>\<open>Missing _index.json in {family_dir.name}\<close>\<close>
  | Invalid_JSON_in path py_error
    \<comment> \<open>\<^verbatim>\<open>Invalid JSON in {json_file}: {str(e)}\<close>\<close>
  | Error_processing path py_error
    \<comment> \<open>\<^verbatim>\<open>Error processing {json_file}: {str(e)}\<close>\<close>
  | Missing_required_field string path
    \<comment> \<open>\<^verbatim>\<open>Missing required field '{field}' in {file_path}\<close>\<close>
  | Missing_section string path
    \<comment> \<open>\<^verbatim>\<open>Missing section '{section}' in {md_file}\<close>\<close>
  | Error_reading_markdown_file path py_error
    \<comment> \<open>\<^verbatim>\<open>Error reading markdown file {md_file}: {str(e)}\<close>\<close>
  | Missing_required_field_in_example string path
    \<comment> \<open>\<^verbatim>\<open>Missing required field '{field}' in example {json_file}\<close>\<close>
  | Error_validating_example path py_error
    \<comment> \<open>\<^verbatim>\<open>Error validating example {json_file}: {str(e)}\<close>\<close>
  | Referenced_family_directory_does_not_exist string
    \<comment> \<open>\<^verbatim>\<open>Referenced family directory does not exist: {family}\<close>\<close>
  | Error_validating_cross_references py_error
    \<comment> \<open>\<^verbatim>\<open>Error validating cross-references: {str(e)}\<close>\<close>
  | Missing_main_index_json
    \<comment> \<open>\<^verbatim>\<open>Missing main index.json\<close>\<close>
  | Missing_families_in_main_index_json
    \<comment> \<open>\<^verbatim>\<open>Missing 'families' in main index.json\<close>\<close>
  | Error_validating_main_index_json py_error
    \<comment> \<open>\<^verbatim>\<open>Error validating main index.json: {str(e)}\<close>\<close>

text \<open>The two accumulators of a \<^verbatim>\<open>RamlValidator\<close>.\<close>

record RamlValidator =
  errors :: "finding list"
  warnings :: "finding list"

text \<open>
  The loop \<^verbatim>\<open>for field in required_fields: if field not in data: append(...)\<close>, shared
  by four methods. The test raises on a value that is not iterable; the entries appended
  before that stay in the list, so the loop returns the list together with the exception,
  if any.
\<close>

fun check_required_fields ::
  "(string \<Rightarrow> finding) \<Rightarrow> pyval \<Rightarrow> string list \<Rightarrow> finding list
   \<Rightarrow> finding list \<times> py_error option" where
  "check_required_fields missing data [] errs = (errs, None)"
| "check_required_fields missing data (field # rest) errs =
     (case contains data field of
        Inl e \<Rightarrow> (errs, Some e)
      | Inr True \<Rightarrow> check_required_fields missing data rest errs
      | Inr False \<Rightarrow> check_required_fields missing data rest (errs @ [missing field]))"

definition validate_index_file ::
  "pyval \<Rightarrow> path \<Rightarrow> finding list \<Rightarrow> finding list \<times> py_error option" where
  "validate_index_file data file_path errs =
     check_required_fields (\<lambda>field. Missing_required_field field file_path) data
       [''family'', ''endpoints''] errs"

text \<open>\<^verbatim>\<open>_validate_endpoint_file\<close>. The class has no method \<^verbatim>\<open>_validate_examples\<close>, so
  the call \<^verbatim>\<open>self._validate_examples(...)\<close> raises \<^verbatim>\<open>AttributeError\<close> when the
  attribute is looked up, before the arguments are evaluated.\<close>

definition validate_endpoint_file ::
  "pyval \<Rightarrow> path \<Rightarrow> finding list \<Rightarrow> finding list \<times> py_error option" where
  "validate_endpoint_file data file_path errs =
     (case check_required_fields (\<lambda>field. Missing_required_field field file_path) data
             [''endpoint'', ''data''] errs of
        (errs', Some e) \<Rightarrow> (errs', Some e)
      | (errs', None) \<Rightarrow>
          (case contains data ''examples'' of
             Inl e \<Rightarrow> (errs', Some e)
           | Inr True \<Rightarrow> (errs', Some AttributeError)
           | Inr False \<Rightarrow> (errs', None)))"

text \<open>The body of the loop of \<^verbatim>\<open>validate_json_files\<close> for one file: first the
  \<^verbatim>\<open>try\<close> block, which returns the list and the exception that left it, if any; then
  the block with its two handlers.\<close>

definition json_file_checks ::
  "filesystem \<Rightarrow> path \<Rightarrow> finding list \<Rightarrow> finding list \<times> py_error option" where
  "json_file_checks fs json_file errs =
     (case read_json fs json_file of
        Inl e \<Rightarrow> (errs, Some e)
      | Inr data \<Rightarrow>
          (if name_of json_file = ''_index.json''
             then validate_index_file data json_file errs
           else if endswith (name_of json_file) ''.json''
             then validate_endpoint_file data json_file errs
           else (errs, None)))"

definition validate_json_file :: "filesystem \<Rightarrow> path \<Rightarrow> finding list \<Rightarrow> finding list" where
  "validate_json_file fs json_file errs =
     (case json_file_checks fs json_file errs of
        (errs', None) \<Rightarrow> errs'
      | (errs', Some e) \<Rightarrow>
          (if e = JSONDecodeError then errs' @ [Invalid_JSON_in json_file e]
           else errs' @ [Error_processing json_file e]))"

definition validate_json_files :: "path \<Rightarrow> filesystem \<Rightarrow> RamlValidator \<Rightarrow> RamlValidator" where
  "validate_json_files api_dir fs v =
     v\<lparr>errors := foldl (\<lambda>errs json_file. validate_json_file fs json_file errs) (errors v)
                     (rglob_suffix fs api_dir ''.json'')\<rparr>"

text \<open>The body of the loop of \<^verbatim>\<open>validate_markdown_files\<close> for one file.\<close>

definition validate_markdown_file :: "filesystem \<Rightarrow> path \<Rightarrow> RamlValidator \<Rightarrow> RamlValidator" where
  "validate_markdown_file fs md_file v =
     (case read_text fs md_file of
        Inl e \<Rightarrow> v\<lparr>errors := errors v @ [Error_reading_markdown_file md_file e]\<rparr>
      | Inr text \<Rightarrow>
          v\<lparr>warnings := warnings v
               @ map (\<lambda>section. Missing_section section md_file)
                   (filter (\<lambda>section. \<not> sublist section text)
                      [''# '', ''## Description'', ''## Endpoints''])\<rparr>)"

definition validate_markdown_files ::
  "path \<Rightarrow> filesystem \<Rightarrow> RamlValidator \<Rightarrow> RamlValidator" where
  "validate_markdown_files api_dir fs v =
     foldl (\<lambda>v md_file. validate_markdown_file fs md_file v) v (rglob_suffix fs api_dir ''.md'')"

text \<open>The body of the loop of \<^verbatim>\<open>validate_examples\<close> for one file: the \<^verbatim>\<open>try\<close>
  block, then the block with its handler.\<close>

definition example_checks ::
  "filesystem \<Rightarrow> path \<Rightarrow> finding list \<Rightarrow> finding list \<times> py_error option" where
  "example_checks fs json_file errs =
     (case read_json fs json_file of
        Inl e \<Rightarrow> (errs, Some e)
      | Inr data \<Rightarrow>
          check_required_fields
            (\<lambda>field. Missing_required_field_in_example field json_file) data
            [''request'', ''response''] errs)"

definition validate_example :: "filesystem \<Rightarrow> path \<Rightarrow> finding list \<Rightarrow> finding list" where
  "validate_example fs json_file errs =
     (case example_checks fs json_file errs of
        (errs', None) \<Rightarrow> errs'
      | (errs', Some e) \<Rightarrow> errs' @ [Error_validating_example json_file e])"

definition validate_examples :: "path \<Rightarrow> filesystem \<Rightarrow> RamlValidator \<Rightarrow> RamlValidator" where
  "validate_examples api_dir fs v =
     v\<lparr>errors := foldl (\<lambda>errs json_file. validate_example fs json_file errs) (errors v)
                     (glob_suffix fs (joinpath api_dir ''examples'') ''.json'')\<rparr>"

text \<open>\<^verbatim>\<open>validate_directory_structure\<close>: the two required directories, then every
  directory directly below the root whose name does not start with a dot.\<close>

definition validate_family_dir :: "filesystem \<Rightarrow> path \<Rightarrow> finding list \<Rightarrow> finding list" where
  "validate_family_dir fs family_dir errs =
     (if is_dir fs family_dir \<and> \<not> startswith (name_of family_dir) ''.'' then
        errs
        @ (if \<not> exists fs (joinpath family_dir ''docs'')
           then [Missing_docs_directory_in (name_of family_dir)] else [])
        @ (if \<not> exists fs (joinpath family_dir ''_index.json'')
           then [Missing_index_json_in (name_of family_dir)] else [])
      else errs)"

definition validate_directory_structure ::
  "path \<Rightarrow> filesystem \<Rightarrow> RamlValidator \<Rightarrow> RamlValidator" where
  "validate_directory_structure api_dir fs v =
     v\<lparr>errors :=
         foldl (\<lambda>errs family_dir. validate_family_dir fs family_dir errs)
           (errors v
            @ map Missing_required_directory
                (filter (\<lambda>dir_name. \<not> exists fs (joinpath api_dir dir_name))
                   [''docs'', ''examples'']))
           (glob_children fs api_dir)\<rparr>"

text \<open>\<^verbatim>\<open>validate_index_files\<close>.\<close>

definition validate_index_files :: "path \<Rightarrow> filesystem \<Rightarrow> RamlValidator \<Rightarrow> RamlValidator" where
  "validate_index_files api_dir fs v =
     (if \<not> exists fs (joinpath api_dir ''index.json'')
      then v\<lparr>errors := errors v @ [Missing_main_index_json]\<rparr>
      else
        (case read_json fs (joinpath api_dir ''index.json'') of
           Inl e \<Rightarrow> v\<lparr>errors := errors v @ [Error_validating_main_index_json e]\<rparr>
         | Inr data \<Rightarrow>
             (case contains data ''families'' of
                Inl e \<Rightarrow> v\<lparr>errors := errors v @ [Error_validating_main_index_json e]\<rparr>
              | Inr True \<Rightarrow> v
              | Inr False \<Rightarrow> v\<lparr>errors := errors v @ [Missing_families_in_main_index_json]\<rparr>)))"

text \<open>The loop of \<^verbatim>\<open>validate_references\<close> over the entries of \<^verbatim>\<open>families\<close>.
  \<^verbatim>\<open>self.api_dir / family\<close> raises \<^verbatim>\<open>TypeError\<close> unless the entry is a string; the
  exception leaves the loop, and the entries appended so far stay.\<close>

fun check_families ::
  "path \<Rightarrow> filesystem \<Rightarrow> pyval list \<Rightarrow> finding list \<Rightarrow> finding list \<times> py_error option" where
  "check_families api_dir fs [] errs = (errs, None)"
| "check_families api_dir fs (PStr family # rest) errs =
     (if \<not> exists fs (joinpath api_dir family)
      then check_families api_dir fs rest
             (errs @ [Referenced_family_directory_does_not_exist family])
      else check_families api_dir fs rest errs)"
| "check_families api_dir fs (family # rest) errs = (errs, Some TypeError)"

definition validate_references :: "path \<Rightarrow> filesystem \<Rightarrow> RamlValidator \<Rightarrow> RamlValidator" where
  "validate_references api_dir fs v =
     (case read_json fs (joinpath api_dir ''index.json'') of
        Inl e \<Rightarrow> v\<lparr>errors := errors v @ [Error_validating_cross_references e]\<rparr>
      | Inr main_index \<Rightarrow>
          (case get main_index ''families'' (PList []) of
             Inl e \<Rightarrow> v\<lparr>errors := errors v @ [Error_validating_cross_references e]\<rparr>
           | Inr families \<Rightarrow>
               (case iterate families of
                  Inl e \<Rightarrow> v\<lparr>errors := errors v @ [Error_validating_cross_references e]\<rparr>
                | Inr family_entries \<Rightarrow>
                    (case check_families api_dir fs family_entries (errors v) of
                       (errs, None) \<Rightarrow> v\<lparr>errors := errs\<rparr>
                     | (errs, Some e) \<Rightarrow>
                         v\<lparr>errors := errs @ [Error_validating_cross_references e]\<rparr>))))"

text \<open>\<^verbatim>\<open>validate_all\<close> on a fresh validator: the six passes in the order of the source.
  The printed report is not modelled; the result is the verdict together with the two
  lists.\<close>

definition run_validations :: "path \<Rightarrow> filesystem \<Rightarrow> RamlValidator" where
  "run_validations api_dir fs =
     validate_references api_dir fs
       (validate_examples api_dir fs
          (validate_markdown_files api_dir fs
             (validate_json_files api_dir fs
                (validate_index_files api_dir fs
                   (validate_directory_structure api_dir fs
                      \<lparr>errors = [], warnings = []\<rparr>)))))"

definition validate_all :: "path \<Rightarrow> filesystem \<Rightarrow> bool \<times> RamlValidator" where
  "validate_all api_dir fs =
     (let v = run_validations api_dir fs in (errors v = [], v))"


section \<open>Notions used in the statements\<close>

text \<open>
  The resolution order of the example synthesizer as the specification words it:
  first a case-insensitive substring match of a keyword of the table against the
  parameter name, the first keyword in table order winning; otherwise an exact match
  of the declared type against the same table; otherwise the literal
  \<^verbatim>\<open>example_value\<close>.
\<close>

definition spec_resolve :: "string \<Rightarrow> string \<Rightarrow> pyval" where
  "spec_resolve declared_type parameter_name =
     (case find (\<lambda>kv. sublist (lower (fst kv)) (lower parameter_name)) example_values of
        Some kv \<Rightarrow> snd kv
      | None \<Rightarrow>
          (case find (\<lambda>kv. fst kv = declared_type) example_values of
             Some kv \<Rightarrow> snd kv
           | None \<Rightarrow> PStr ''example_value''))"

text \<open>A parameter mapping: every parameter name is mapped to a mapping whose
  \<^verbatim>\<open>type\<close>, if it has one, is a string.\<close>

fun declares_string_type :: "pyval \<Rightarrow> bool" where
  "declares_string_type (PDict kvs) =
     (case map_of kvs ''type'' of None \<Rightarrow> True | Some (PStr t) \<Rightarrow> True | Some v \<Rightarrow> False)"
| "declares_string_type v = False"

fun parameter_mapping :: "pyval \<Rightarrow> bool" where
  "parameter_mapping (PDict kvs) = list_all (\<lambda>kv. declares_string_type (snd kv)) kvs"
| "parameter_mapping v = False"

text \<open>Whether a call returned rather than raised.\<close>

definition succeeds :: "'e + 'a \<Rightarrow> bool" where
  "succeeds r = (case r of Inl e \<Rightarrow> False | Inr x \<Rightarrow> True)"

text \<open>Sample inputs: an endpoint descriptor with a description and two parameters, a
  file system that holds the root directory only, and an output tree that holds the
  directory of the family \<^verbatim>\<open>/interface\<close>.\<close>

definition sample_endpoint :: pyval where
  "sample_endpoint =
     PDict [(''method'', PStr ''GET''),
            (''description'', PStr ''List ethernet interfaces''),
            (''parameters'', PDict [(''name'', PDict [(''type'', PStr ''string'')]),
                                    (''address'', PDict [(''type'', PStr ''ip'')])])]"

definition empty_tree :: filesystem where
  "empty_tree = fmap_of_list [([], Dir)]"

definition family_tree :: filesystem where
  "family_tree =
     fmap_of_list [([], Dir), ([''api''], Dir), ([''api'', ''interface''], Dir),
                   ([''api'', ''interface'', ''docs''], Dir)]"

text \<open>A validator that has found nothing yet.\<close>

definition fresh :: RamlValidator where
  "fresh = \<lparr>errors = [], warnings = []\<rparr>"

text \<open>Sample trees for the validator: one with an unparseable JSON file, a sound but
  incomplete example file and a directory named like a Markdown file; and one whose
  \<^verbatim>\<open>examples\<close> directory holds the single file \<^verbatim>\<open>foo.json\<close> with a given
  content.\<close>

definition damaged_tree :: filesystem where
  "damaged_tree =
     fmap_of_list
       [([], Dir),
        ([''api''], Dir),
        ([''api'', ''docs''], Dir),
        ([''api'', ''examples''], Dir),
        ([''api'', ''examples'', ''bad.json''], File (PlainText ''{request:'')),
        ([''api'', ''examples'', ''good.json''],
           File (JsonText (PDict [(''request'', PDict [])]))),
        ([''api'', ''notes.md''], Dir),
        ([''api'', ''index.json''], File (JsonText (PDict [(''families'', PList [])])))]"

definition examples_tree :: "pyval \<Rightarrow> filesystem" where
  "examples_tree content_of_foo =
     fmap_of_list
       [([], Dir),
        ([''api''], Dir),
        ([''api'', ''docs''], Dir),
        ([''api'', ''examples''], Dir),
        ([''api'', ''examples'', ''foo.json''], File (JsonText content_of_foo)),
        ([''api'', ''index.json''], File (JsonText (PDict [(''families'', PList [])])))]"

text \<open>A sample schema document: one metadata key and the family \<^verbatim>\<open>/interface\<close> with
  the endpoint \<^verbatim>\<open>/ethernet\<close>.\<close>

definition sample_document :: pyval where
  "sample_document =
     PDict [(''title'', PStr ''RouterOS API''),
            (''/interface'', PDict [(''/ethernet'', sample_endpoint)])]"

text \<open>A path whose name ends in \<^verbatim>\<open>.md\<close>.\<close>

definition is_md :: "path \<Rightarrow> bool" where
  "is_md p = endswith (name_of p) ''.md''"

text \<open>Relations between file systems for the comparison of two runs. Two entries are of
  the same kind when both are absent, both are directories or both are files.\<close>

definition same_kind :: "node option \<Rightarrow> node option \<Rightarrow> bool" where
  "same_kind a b =
     (case a of
        None \<Rightarrow> b = None
      | Some Dir \<Rightarrow> b = Some Dir
      | Some (File c) \<Rightarrow> (case b of Some (File c') \<Rightarrow> True | _ \<Rightarrow> False))"

text \<open>Every path that exists in the first file system exists in the second, with the
  same kind.\<close>

definition grows :: "filesystem \<Rightarrow> filesystem \<Rightarrow> bool" where
  "grows r F = (\<forall>p. lookup r p \<noteq> None \<longrightarrow> same_kind (lookup r p) (lookup F p))"

text \<open>The Markdown document of an endpoint, as a function of the clock reading.\<close>

definition markdown_text :: "string \<Rightarrow> string \<Rightarrow> string" where
  "markdown_text now path =
     ''# '' @ path @ '' API Documentation'' @ [CHR 0x0A]
     @ ''Generated on: '' @ now @ [CHR 0x0A]
     @ ''## Endpoints'' @ [CHR 0x0A]"

text \<open>Two entries are equal, or they are the Markdown documents of one endpoint written
  at the same reading of two clocks.\<close>

definition timestamp_only :: "clock \<Rightarrow> clock \<Rightarrow> node option \<Rightarrow> node option \<Rightarrow> bool" where
  "timestamp_only c1 c2 a b =
     (a = b \<or> (\<exists>i path. a = Some (File (PlainText (markdown_text (c1 i) path)))
                        \<and> b = Some (File (PlainText (markdown_text (c2 i) path)))))"

text \<open>Two file systems agree except for the time in their Markdown documents.\<close>

definition agree :: "clock \<Rightarrow> clock \<Rightarrow> filesystem \<Rightarrow> filesystem \<Rightarrow> bool" where
  "agree c1 c2 r s = (\<forall>p. same_kind (lookup r p) (lookup s p)
                    \<and> (\<not> is_md p \<longrightarrow> lookup s p = lookup r p)
                    \<and> timestamp_only c1 c2 (lookup r p) (lookup s p))"

text \<open>The relation kept while a first run \<open>r\<close>, a fresh run \<open>s\<close> with another clock, and a
  second run \<open>t\<close> over the output \<open>F\<close> of the first advance in step.\<close>

definition inv3 ::
  "filesystem \<Rightarrow> clock \<Rightarrow> clock \<Rightarrow> filesystem \<Rightarrow> filesystem \<Rightarrow> filesystem \<Rightarrow> bool" where
  "inv3 F c1 c2 r s t =
     (agree c1 c2 r s
      \<and> (\<forall>p. same_kind (lookup t p) (lookup F p))
      \<and> (\<forall>p. lookup t p = lookup s p \<or> (lookup t p = lookup F p \<and> lookup s p = lookup r p)))"

text \<open>Two file systems have gained the same new directories.\<close>

definition dirs_added :: "filesystem \<Rightarrow> filesystem \<Rightarrow> filesystem \<Rightarrow> filesystem \<Rightarrow> bool" where
  "dirs_added r r' s s' =
     (\<forall>q. (lookup r' q = lookup r q \<and> lookup s' q = lookup s q)
          \<or> (lookup r q = None \<and> lookup r' q = Some Dir \<and> lookup s' q = Some Dir))"

text \<open>The enriched descriptor that \<^verbatim>\<open>process_endpoint\<close> assembles.\<close>

definition enhance :: "string \<Rightarrow> pyval \<Rightarrow> py_error + pyval" where
  "enhance endpoint data =
     (case get data ''method'' (PStr ''GET'') of
        Inl e \<Rightarrow> Inl e
      | Inr method \<Rightarrow>
     (case get data ''parameters'' (PDict []) of
        Inl e \<Rightarrow> Inl e
      | Inr params \<Rightarrow>
     (case generate_example_for_endpoint endpoint method params of
        Inl e \<Rightarrow> Inl e
      | Inr examples \<Rightarrow>
     (case get_validation_rules data of
        Inl e \<Rightarrow> Inl e
      | Inr validation \<Rightarrow>
          Inr (PDict [(''endpoint'', PStr endpoint),
                      (''data'', data),
                      (''examples'', ApiExample_dict examples),
                      (''validation'', validation)])))))"

text \<open>The file system a run leaves, when it returned; two clocks that read different
  times; and the trees after a first run of the splitter on the sample document and
  after a second run over the output of the first.\<close>

definition outcome :: "py_error + filesystem \<Rightarrow> filesystem" where
  "outcome r = (case r of Inl e \<Rightarrow> fmempty | Inr fs \<Rightarrow> fs)"

definition morning :: clock where
  "morning n = ''2024-01-01 09:00:00''"

definition evening :: clock where
  "evening n = ''2024-01-01 21:00:00''"

definition first_run :: filesystem where
  "first_run = outcome (process_raml morning [''api''] (Inr sample_document) empty_tree)"

definition second_run :: filesystem where
  "second_run = outcome (process_raml evening [''api''] (Inr sample_document) first_run)"

text \<open>
  Reading one key of a JSON file of the tree, as \<^verbatim>\<open>key in json.load(f)\<close> does, and
  the files that hold an enriched endpoint descriptor: JSON mappings in which the four
  keys \<^verbatim>\<open>endpoint\<close>, \<^verbatim>\<open>data\<close>, \<^verbatim>\<open>examples\<close> and \<^verbatim>\<open>validation\<close> occur. A step of the
  splitter \<^emph>\<open>keeps\<close> the descriptors when every such file that is neither a Markdown
  document nor named \<^verbatim>\<open>_index.json\<close> is still one after the step.\<close>

definition key_in_file :: "filesystem \<Rightarrow> path \<Rightarrow> string \<Rightarrow> py_error + bool" where
  "key_in_file fs p key = (case read_json fs p of Inl e \<Rightarrow> Inl e | Inr v \<Rightarrow> contains v key)"




definition root_index_document :: pyval where
  "root_index_document = PDict [(''/'', PDict [(''/index'', PDict [])])]"

definition nested_document :: pyval where
  "nested_document = PDict [(''/interface'', PDict [(''/ethernet/{id}'', PDict [])])]"


section \<open>The example synthesizer\<close>

lemma scan_keys_find:
  "scan_keys table name = map_option snd (find (\<lambda>kv. sublist (fst kv) name) table)"
  by (induction table name rule: scan_keys.induct) auto

lemma map_of_find:
  "map_of table k = map_option snd (find (\<lambda>kv. fst kv = k) table)"
  by (induction table) auto

lemma example_keys_lower: "\<forall>kv \<in> set example_values. lower (fst kv) = fst kv"
  by (simp add: example_values_def lower_def lower_char_def)

lemma find_cong_set: "(\<And>x. x \<in> set xs \<Longrightarrow> P x = Q x) \<Longrightarrow> find P xs = find Q xs"
  by (induction xs) auto

text \<open>
  Claim C5. For every declared type string and every parameter name,
  \<^verbatim>\<open>get_example_value\<close> returns a value, never an exception, and the value is the one
  the resolution order of the specification selects: the first keyword of the table,
  in table order, that occurs in the parameter name regardless of case; failing that
  the table entry whose key is exactly the declared type; failing that
  \<^verbatim>\<open>example_value\<close>.
\<close>

theorem get_example_value_resolution:
  "get_example_value (PStr declared_type) parameter_name
     = Inr (spec_resolve declared_type parameter_name)"
proof -
  have "find (\<lambda>kv. sublist (lower (fst kv)) (lower parameter_name)) example_values
      = find (\<lambda>kv. sublist (fst kv) (lower parameter_name)) example_values"
    by (rule find_cong_set) (use example_keys_lower in auto)
  then show ?thesis
    by (auto simp: get_example_value_def spec_resolve_def scan_keys_find map_of_find
        split: option.splits)
qed

text \<open>
  Claim C6. For every parameter name in which \<^verbatim>\<open>ip\<close> occurs, compared without
  regard to case, and for every declared type, of any shape, the synthesizer returns
  the example IP address \<^verbatim>\<open>192.168.88.1\<close>.
\<close>

theorem ip_name_gives_example_ip:
  assumes "sublist ''ip'' (lower param_name)"
  shows "get_example_value param_type param_name = Inr (PStr ''192.168.88.1'')"
  using assms by (simp add: get_example_value_def example_values_def)

theorem ip_name_gives_example_ip_witness:
  "sublist ''ip'' (lower ''Src-IP-Address'')
   \<and> get_example_value (PStr ''number'') ''Src-IP-Address'' = Inr (PStr ''192.168.88.1'')"
proof -
  have h: "sublist ''ip'' (lower ''Src-IP-Address'')"
    by (simp add: lower_def lower_char_def sublist_code)
  show ?thesis using h ip_name_gives_example_ip [OF h, of "PStr ''number''"] by simp
qed

lemma get_example_value_string:
  "\<exists>v. get_example_value (PStr t) n = Inr v"
  by (simp add: get_example_value_def split: option.splits)

lemma declared_type_string:
  assumes "declares_string_type info"
  shows "\<exists>t. get info ''type'' (PStr ''string'') = Inr (PStr t)"
proof (cases info)
  case (PDict kvs)
  with assms show ?thesis
    by (cases "map_of kvs ''type''") (auto split: pyval.splits)
qed (use assms in simp_all)

lemma build_request_body_total:
  "list_all (\<lambda>kv. declares_string_type (snd kv)) kvs
   \<Longrightarrow> \<exists>body. build_request_body kvs acc = Inr body"
proof (induction kvs arbitrary: acc)
  case Nil
  then show ?case by simp
next
  case (Cons kv kvs)
  obtain name info where kv: "kv = (name, info)" by (cases kv)
  from Cons.prems kv obtain t where t: "get info ''type'' (PStr ''string'') = Inr (PStr t)"
    using declared_type_string by auto
  obtain v where v: "get_example_value (PStr t) name = Inr v"
    using get_example_value_string by blast
  from Cons.prems have "list_all (\<lambda>kv. declares_string_type (snd kv)) kvs" by simp
  from Cons.IH [OF this] show ?case by (simp add: kv t v)
qed

text \<open>
  Claim C10. For every endpoint path, every method string and every parameter mapping,
  \<^verbatim>\<open>generate_example_for_endpoint\<close> returns an example whose response has status 200
  and a body fixed by the lower-cased method alone: for \<^verbatim>\<open>get\<close> the list
  \<^verbatim>\<open>items\<close> holding the synthesized request body, for \<^verbatim>\<open>post\<close> the pair
  \<^verbatim>\<open>result\<close>, \<^verbatim>\<open>ret\<close>, and for every other method \<^verbatim>\<open>status: success\<close>.
\<close>

theorem example_response_by_method:
  assumes "parameter_mapping params"
  shows "\<exists>request_body.
           generate_example_for_endpoint endpoint_path (PStr method) params =
             Inr \<lparr>request = PDict [(''method'', PStr method),
                                   (''path'', PStr endpoint_path),
                                   (''body'', PDict request_body)],
                  response = PDict [(''status'', PInt 200),
                    (''body'',
                       if lower method = ''get''
                         then PDict [(''items'', PList [PDict request_body])]
                       else if lower method = ''post''
                         then PDict [(''result'', PStr ''success''), (''ret'', PStr ''done'')]
                       else PDict [(''status'', PStr ''success'')])],
                  description = ''Example '' @ method @ '' request to '' @ endpoint_path\<rparr>"
proof (cases params)
  case (PDict kvs)
  with assms obtain body where "build_request_body kvs [] = Inr body"
    using build_request_body_total [of kvs "[]"] by auto
  with PDict show ?thesis
    by (simp add: generate_example_for_endpoint_def response_body_def)
qed (use assms in simp_all)

theorem example_response_by_method_witness:
  "parameter_mapping (PDict [(''address'', PDict [(''type'', PStr ''ip'')])])
   \<and> (\<exists>request_body.
        generate_example_for_endpoint ''/ethernet'' (PStr ''Get'')
            (PDict [(''address'', PDict [(''type'', PStr ''ip'')])]) =
          Inr \<lparr>request = PDict [(''method'', PStr ''Get''),
                                (''path'', PStr ''/ethernet''),
                                (''body'', PDict request_body)],
               response = PDict [(''status'', PInt 200),
                                 (''body'', PDict [(''items'', PList [PDict request_body])])],
               description = ''Example Get request to /ethernet''\<rparr>)"
proof -
  have h: "parameter_mapping (PDict [(''address'', PDict [(''type'', PStr ''ip'')])])"
    by simp
  have l: "lower ''Get'' = ''get''"
    by (simp add: lower_def lower_char_def)
  show ?thesis
    using h example_response_by_method [OF h, of "''/ethernet''" "''Get''"] by (simp add: l)
qed


section \<open>File names\<close>

lemma strip_slashes_ends:
  "\<exists>m n. s = replicate m CHR ''/'' @ strip_slashes s @ replicate n CHR ''/''"
proof -
  let ?P = "\<lambda>c. c = CHR ''/''"
  define t where "t = dropWhile ?P s"
  have all_P: "xs = replicate (length xs) CHR ''/''" if "\<forall>x\<in>set xs. ?P x" for xs :: string
    using that by (induction xs) auto
  have a: "takeWhile ?P s = replicate (length (takeWhile ?P s)) CHR ''/''"
    by (rule all_P) (auto dest: set_takeWhileD)
  have b: "rev (takeWhile ?P (rev t)) = replicate (length (takeWhile ?P (rev t))) CHR ''/''"
    using all_P [of "rev (takeWhile ?P (rev t))"] by (auto dest: set_takeWhileD)
  have "rev t = takeWhile ?P (rev t) @ dropWhile ?P (rev t)" by simp
  then have t: "t = rev (dropWhile ?P (rev t)) @ rev (takeWhile ?P (rev t))"
    by (metis rev_append rev_rev_ident)
  have "s = takeWhile ?P s @ t" by (simp add: t_def)
  with t have "s = takeWhile ?P s @ strip_slashes s @ rev (takeWhile ?P (rev t))"
    by (simp add: strip_slashes_def t_def)
  with a b show ?thesis by metis
qed


text \<open>
  Claim C8. An output file name is the raw schema key with the slashes stripped at its
  two ends only: every key is its stripped form between two runs of slashes. For the
  family key \<^verbatim>\<open>/interface\<close> and the endpoint key \<^verbatim>\<open>/ethernet/{id}\<close> the name of the
  JSON file relative to the family directory is \<^verbatim>\<open>ethernet/{id}.json\<close>, the embedded
  slash kept, so that the file lies in the directory \<^verbatim>\<open>ethernet\<close> below the family
  directory.
\<close>

theorem endpoint_file_name:
  "(\<exists>m n. endpoint = replicate m CHR ''/'' @ strip_slashes endpoint @ replicate n CHR ''/'')
   \<and> strip_slashes ''/interface'' = ''interface''
   \<and> strip_slashes ''/ethernet/{id}'' @ ''.json'' = ''ethernet/{id}.json''
   \<and> endpoint_file (joinpath base_path (strip_slashes ''/interface'')) ''/ethernet/{id}''
       = base_path @ [''interface'', ''ethernet'', ''{id}.json'']"
  using strip_slashes_ends [of endpoint]
  by (simp add: strip_slashes_def endpoint_file_def joinpath_def startswith_def parts_def)

lemma split_slash_nonempty: "split_slash s \<noteq> []"
  by (induction s) (auto split: list.splits)

lemma split_slash_append:
  "CHR ''/'' \<notin> set suf \<Longrightarrow>
   split_slash (s @ suf) = butlast (split_slash s) @ [last (split_slash s) @ suf]"
proof (induction s)
  case Nil
  then show ?case by (induction suf) (auto split: list.splits)
next
  case (Cons c s)
  then show ?case using split_slash_nonempty [of s] split_slash_nonempty [of "s @ suf"]
    by (auto split: list.splits simp: butlast_append)
qed

lemma parts_append_last:
  assumes "CHR ''/'' \<notin> set suf" "2 \<le> length suf"
  shows "parts (s @ suf) \<noteq> [] \<and> last (parts (s @ suf)) = last (split_slash s) @ suf"
proof -
  have "last (split_slash s) @ suf \<noteq> []" "last (split_slash s) @ suf \<noteq> ''.''"
    using assms(2) by (auto simp: append_eq_Cons_conv)
  then show ?thesis
    by (simp add: parts_def split_slash_append [OF assms(1)])
qed

lemma joinpath_suffix_name:
  assumes "CHR ''/'' \<notin> set suf" "2 \<le> length suf"
  shows "joinpath b (s @ suf) \<noteq> [] \<and> endswith (name_of (joinpath b (s @ suf))) suf"
  using parts_append_last [OF assms, of s]
  by (auto simp: joinpath_def name_of_def endswith_def suffix_def)



section \<open>The files of one endpoint\<close>

lemma write_file_lookup:
  "write_file p c fs = Inr fs' \<Longrightarrow>
   lookup fs' q = (if q = p then Some (File c) else lookup fs q)"
  by (auto simp: write_file_def lookup_def split: option.splits node.splits if_splits)

lemma generate_markdown_enhanced:
  "generate_markdown now
     (PDict [(''endpoint'', e), (''data'', d), (''examples'', x), (''validation'', v)]) path
   = Inr (''# '' @ path @ '' API Documentation'' @ [CHR 0x0A]
          @ ''Generated on: '' @ now @ [CHR 0x0A]
          @ ''## Endpoints'' @ [CHR 0x0A])"
  by (simp add: generate_markdown_def)

text \<open>
  Claim C3. For every endpoint the splitter processes, the Markdown document written
  for it is the title heading, the timestamp line and the heading \<^verbatim>\<open>## Endpoints\<close>,
  and nothing else: no method subsection, no parameter table, no examples block and
  no validation block, since the enriched descriptor handed to \<^verbatim>\<open>generate_markdown\<close>
  has the keys \<^verbatim>\<open>endpoint\<close>, \<^verbatim>\<open>data\<close>, \<^verbatim>\<open>examples\<close> and \<^verbatim>\<open>validation\<close> only, and
  for the same reason no description section.
\<close>

theorem markdown_document_content:
  assumes "process_endpoint clock endpoint data family_dir st = Inr (enhanced_data, st')"
  shows "read_text (fst st') (doc_file family_dir endpoint)
           = Inr (''# '' @ endpoint @ '' API Documentation'' @ [CHR 0x0A]
                  @ ''Generated on: '' @ clock (snd st) @ [CHR 0x0A]
                  @ ''## Endpoints'' @ [CHR 0x0A])"
  using assms
  by (auto simp: process_endpoint_def Let_def generate_markdown_enhanced write_file_lookup
      read_text_def split: sum.splits)

theorem markdown_document_content_witness:
  "\<exists>enhanced_data st'.
     process_endpoint (\<lambda>n. ''2024-01-01 00:00:00'') ''/ethernet'' sample_endpoint
         [''api'', ''interface''] (family_tree, 0) = Inr (enhanced_data, st')
     \<and> read_text (fst st') (doc_file [''api'', ''interface''] ''/ethernet'')
           = Inr (''# /ethernet API Documentation'' @ [CHR 0x0A]
                  @ ''Generated on: 2024-01-01 00:00:00'' @ [CHR 0x0A]
                  @ ''## Endpoints'' @ [CHR 0x0A])"
proof -
  have "succeeds (process_endpoint (\<lambda>n. ''2024-01-01 00:00:00'') ''/ethernet'' sample_endpoint
         [''api'', ''interface''] (family_tree, 0))"
    by code_simp
  then obtain enhanced_data st' where
    h: "process_endpoint (\<lambda>n. ''2024-01-01 00:00:00'') ''/ethernet'' sample_endpoint
         [''api'', ''interface''] (family_tree, 0) = Inr (enhanced_data, st')"
    by (auto simp: succeeds_def split: sum.splits)
  from markdown_document_content [OF h] h show ?thesis by auto
qed


section \<open>The validator: findings file by file\<close>

lemma check_required_fields_append:
  "check_required_fields missing data required errs
     = (errs @ fst (check_required_fields missing data required []),
        snd (check_required_fields missing data required []))"
proof (induction required arbitrary: errs)
  case Nil
  then show ?case by simp
next
  case (Cons field required)
  show ?case
  proof (cases "contains data field")
    case (Inl e)
    then show ?thesis by simp
  next
    case (Inr b)
    show ?thesis
    proof (cases b)
      case True
      with Inr Cons.IH [of errs] show ?thesis by simp
    next
      case False
      with Inr Cons.IH [of "errs @ [missing field]"] Cons.IH [of "[missing field]"]
      show ?thesis by simp
    qed
  qed
qed

lemma validate_index_file_append:
  "validate_index_file data p errs
     = (errs @ fst (validate_index_file data p []), snd (validate_index_file data p []))"
  unfolding validate_index_file_def by (rule check_required_fields_append)

lemma validate_endpoint_file_append:
  "validate_endpoint_file data p errs
     = (errs @ fst (validate_endpoint_file data p []), snd (validate_endpoint_file data p []))"
proof -
  let ?c = "check_required_fields (\<lambda>field. Missing_required_field field p) data
              [''endpoint'', ''data'']"
  obtain found exn where c: "?c [] = (found, exn)" by (cases "?c []")
  have "?c errs = (errs @ fst (?c []), snd (?c []))"
    by (rule check_required_fields_append)
  with c have c': "?c errs = (errs @ found, exn)" by simp
  show ?thesis
    unfolding validate_endpoint_file_def c c'
    by (simp split: option.splits sum.splits bool.splits)
qed

lemma json_file_checks_append:
  "json_file_checks fs f errs
     = (errs @ fst (json_file_checks fs f []), snd (json_file_checks fs f []))"
proof (cases "read_json fs f")
  case (Inl e)
  then show ?thesis by (simp add: json_file_checks_def)
next
  case (Inr data)
  show ?thesis
    using validate_index_file_append [of data f errs]
      validate_endpoint_file_append [of data f errs]
    by (simp add: json_file_checks_def Inr)
qed

lemma validate_json_file_append:
  "validate_json_file fs f errs = errs @ validate_json_file fs f []"
proof -
  obtain found exn where c: "json_file_checks fs f [] = (found, exn)"
    by (cases "json_file_checks fs f []")
  with json_file_checks_append [of fs f errs]
  have c': "json_file_checks fs f errs = (errs @ found, exn)" by simp
  show ?thesis
    unfolding validate_json_file_def c c' by (simp split: option.splits)
qed

lemma example_checks_append:
  "example_checks fs f errs
     = (errs @ fst (example_checks fs f []), snd (example_checks fs f []))"
proof (cases "read_json fs f")
  case (Inl e)
  then show ?thesis by (simp add: example_checks_def)
next
  case (Inr data)
  show ?thesis
    using check_required_fields_append
      [of "\<lambda>field. Missing_required_field_in_example field f" data "[''request'', ''response'']" errs]
    by (simp add: example_checks_def Inr)
qed

lemma validate_example_append:
  "validate_example fs f errs = errs @ validate_example fs f []"
proof -
  obtain found exn where c: "example_checks fs f [] = (found, exn)"
    by (cases "example_checks fs f []")
  with example_checks_append [of fs f errs]
  have c': "example_checks fs f errs = (errs @ found, exn)" by simp
  show ?thesis
    unfolding validate_example_def c c' by (simp split: option.splits)
qed

lemma foldl_appending:
  assumes "\<And>x acc. step x acc = acc @ step x []"
  shows "foldl (\<lambda>acc x. step x acc) acc xs = acc @ concat (map (\<lambda>x. step x []) xs)"
proof (induction xs arbitrary: acc)
  case Nil
  then show ?case by simp
next
  case (Cons x xs)
  have "foldl (\<lambda>acc x. step x acc) (step x acc) xs
          = step x acc @ concat (map (\<lambda>x. step x []) xs)"
    by (rule Cons.IH)
  moreover have "step x acc = acc @ step x []" by (rule assms)
  ultimately have "foldl (\<lambda>acc x. step x acc) (step x acc) xs
          = (acc @ step x []) @ concat (map (\<lambda>x. step x []) xs)"
    by metis
  then show ?case by simp
qed

lemma validate_json_files_errors:
  "errors (validate_json_files api_dir fs v)
     = errors v @ concat (map (\<lambda>f. validate_json_file fs f []) (rglob_suffix fs api_dir ''.json''))"
  unfolding validate_json_files_def
  using foldl_appending [of "validate_json_file fs", OF validate_json_file_append]
  by simp

lemma validate_json_files_warnings:
  "warnings (validate_json_files api_dir fs v) = warnings v"
  by (simp add: validate_json_files_def)

lemma validate_examples_errors:
  "errors (validate_examples api_dir fs v)
     = errors v @ concat (map (\<lambda>f. validate_example fs f [])
                            (glob_suffix fs (joinpath api_dir ''examples'') ''.json''))"
  unfolding validate_examples_def
  using foldl_appending [of "validate_example fs", OF validate_example_append]
  by simp

lemma validate_examples_warnings:
  "warnings (validate_examples api_dir fs v) = warnings v"
  by (simp add: validate_examples_def)

lemma validate_markdown_file_split:
  "validate_markdown_file fs f v
     = \<lparr>errors = errors v @ errors (validate_markdown_file fs f fresh),
        warnings = warnings v @ warnings (validate_markdown_file fs f fresh)\<rparr>"
  by (simp add: validate_markdown_file_def fresh_def split: sum.splits)

lemma markdown_fold:
  "foldl (\<lambda>v f. validate_markdown_file fs f v) v fs'
     = \<lparr>errors = errors v @ concat (map (\<lambda>f. errors (validate_markdown_file fs f fresh)) fs'),
        warnings = warnings v @ concat (map (\<lambda>f. warnings (validate_markdown_file fs f fresh)) fs')\<rparr>"
proof (induction fs' arbitrary: v)
  case Nil
  then show ?case by simp
next
  case (Cons f fs')
  have "validate_markdown_file fs f v
     = \<lparr>errors = errors v @ errors (validate_markdown_file fs f fresh),
        warnings = warnings v @ warnings (validate_markdown_file fs f fresh)\<rparr>"
    by (rule validate_markdown_file_split)
  then have e: "errors (validate_markdown_file fs f v)
                  = errors v @ errors (validate_markdown_file fs f fresh)"
    and w: "warnings (validate_markdown_file fs f v)
                  = warnings v @ warnings (validate_markdown_file fs f fresh)"
    by (metis RamlValidator.select_convs(1), metis RamlValidator.select_convs(2))
  show ?case
    by (simp add: Cons.IH [of "validate_markdown_file fs f v"] e w)
qed

lemma check_families_append:
  "check_families api_dir fs xs errs
     = (errs @ fst (check_families api_dir fs xs []), snd (check_families api_dir fs xs []))"
proof (induction xs arbitrary: errs)
  case Nil
  then show ?case by simp
next
  case (Cons x xs)
  show ?case
  proof (cases x)
    case (PStr family)
    show ?thesis
      using Cons.IH [of errs] Cons.IH [of "errs @ [Referenced_family_directory_does_not_exist family]"]
        Cons.IH [of "[Referenced_family_directory_does_not_exist family]"]
      by (simp add: PStr)
  qed simp_all
qed

lemma validate_references_errors:
  "errors (validate_references api_dir fs v)
     = errors v @ errors (validate_references api_dir fs fresh)"
proof -
  have cf: "check_families api_dir fs xs (errors v)
       = (errors v @ fst (check_families api_dir fs xs []), snd (check_families api_dir fs xs []))"
    for xs by (rule check_families_append)
  show ?thesis
    unfolding validate_references_def fresh_def
    by (simp add: cf split: sum.splits prod.splits option.splits)
qed

lemma validate_references_warnings:
  "warnings (validate_references api_dir fs v) = warnings v"
  by (auto simp: validate_references_def split: sum.splits prod.splits option.splits)

lemma validate_index_files_warnings:
  "warnings (validate_index_files api_dir fs v) = warnings v"
  by (auto simp: validate_index_files_def split: sum.splits bool.splits)

lemma validate_directory_structure_warnings:
  "warnings (validate_directory_structure api_dir fs v) = warnings v"
  by (simp add: validate_directory_structure_def)

lemma run_validations_errors:
  "errors (run_validations api_dir fs)
     = errors (validate_index_files api_dir fs (validate_directory_structure api_dir fs fresh))
       @ concat (map (\<lambda>f. validate_json_file fs f []) (rglob_suffix fs api_dir ''.json''))
       @ concat (map (\<lambda>f. errors (validate_markdown_file fs f fresh))
                   (rglob_suffix fs api_dir ''.md''))
       @ concat (map (\<lambda>f. validate_example fs f [])
                   (glob_suffix fs (joinpath api_dir ''examples'') ''.json''))
       @ errors (validate_references api_dir fs fresh)"
  unfolding run_validations_def
  by (subst validate_references_errors)
     (simp add: validate_examples_errors validate_markdown_files_def markdown_fold
        validate_json_files_errors fresh_def)

lemma run_validations_warnings:
  "warnings (run_validations api_dir fs)
     = concat (map (\<lambda>f. warnings (validate_markdown_file fs f fresh))
                 (rglob_suffix fs api_dir ''.md''))"
  unfolding run_validations_def
  by (simp add: validate_references_warnings validate_examples_warnings
        validate_markdown_files_def markdown_fold validate_json_files_warnings
        validate_index_files_warnings validate_directory_structure_warnings fresh_def)

text \<open>
  Claim C9. A failure on one file does not stop the validation of the others:
  \<^verbatim>\<open>validate_all\<close> always returns, its verdict says whether the error list is empty,
  and its two lists are the findings of the structure passes followed by the findings
  of every JSON file, every Markdown file and every example file taken on its own, and
  by those of the cross-reference pass. When the check of a file raises an exception,
  the handler of that file turns it into one entry that names the file, after the
  entries found before the exception; an unparseable JSON file gives exactly one entry.
\<close>

theorem validation_continues_past_failures:
  "fst (validate_all api_dir fs) = (errors (snd (validate_all api_dir fs)) = [])
   \<and> errors (snd (validate_all api_dir fs))
       = errors (validate_index_files api_dir fs (validate_directory_structure api_dir fs fresh))
         @ concat (map (\<lambda>f. validate_json_file fs f []) (rglob_suffix fs api_dir ''.json''))
         @ concat (map (\<lambda>f. errors (validate_markdown_file fs f fresh))
                     (rglob_suffix fs api_dir ''.md''))
         @ concat (map (\<lambda>f. validate_example fs f [])
                     (glob_suffix fs (joinpath api_dir ''examples'') ''.json''))
         @ errors (validate_references api_dir fs fresh)
   \<and> warnings (snd (validate_all api_dir fs))
       = concat (map (\<lambda>f. warnings (validate_markdown_file fs f fresh))
                   (rglob_suffix fs api_dir ''.md''))
   \<and> (json_file_checks fs json_file [] = (found, Some e) \<longrightarrow>
        validate_json_file fs json_file []
          = found @ [if e = JSONDecodeError then Invalid_JSON_in json_file e
                     else Error_processing json_file e])
   \<and> (read_json fs json_file = Inl JSONDecodeError \<longrightarrow>
        validate_json_file fs json_file [] = [Invalid_JSON_in json_file JSONDecodeError])
   \<and> (read_text fs md_file = Inl e' \<longrightarrow>
        validate_markdown_file fs md_file fresh
          = \<lparr>errors = [Error_reading_markdown_file md_file e'], warnings = []\<rparr>)
   \<and> (example_checks fs json_file [] = (found', Some e'') \<longrightarrow>
        validate_example fs json_file [] = found' @ [Error_validating_example json_file e''])"
  using run_validations_errors [of api_dir fs] run_validations_warnings [of api_dir fs]
  by (auto simp: validate_all_def Let_def validate_json_file_def json_file_checks_def
      validate_markdown_file_def fresh_def validate_example_def)

theorem validation_continues_past_failures_witness:
  "json_file_checks damaged_tree [''api'', ''examples'', ''bad.json''] []
      = ([], Some JSONDecodeError)
   \<and> read_json damaged_tree [''api'', ''examples'', ''bad.json''] = Inl JSONDecodeError
   \<and> read_text damaged_tree [''api'', ''notes.md''] = Inl IsADirectoryError
   \<and> example_checks damaged_tree [''api'', ''examples'', ''bad.json''] []
      = ([], Some JSONDecodeError)
   \<and> validate_json_file damaged_tree [''api'', ''examples'', ''bad.json''] []
      = [Invalid_JSON_in [''api'', ''examples'', ''bad.json''] JSONDecodeError]
   \<and> validate_markdown_file damaged_tree [''api'', ''notes.md''] fresh
      = \<lparr>errors = [Error_reading_markdown_file [''api'', ''notes.md''] IsADirectoryError],
         warnings = []\<rparr>
   \<and> validate_example damaged_tree [''api'', ''examples'', ''bad.json''] []
      = [Error_validating_example [''api'', ''examples'', ''bad.json''] JSONDecodeError]"
proof -
  have h1: "json_file_checks damaged_tree [''api'', ''examples'', ''bad.json''] []
      = ([], Some JSONDecodeError)"
    by code_simp
  have h2: "read_json damaged_tree [''api'', ''examples'', ''bad.json''] = Inl JSONDecodeError"
    by code_simp
  have h3: "read_text damaged_tree [''api'', ''notes.md''] = Inl IsADirectoryError"
    by code_simp
  have h4: "example_checks damaged_tree [''api'', ''examples'', ''bad.json''] []
      = ([], Some JSONDecodeError)"
    by code_simp
  show ?thesis
    using h1 h2 h3 h4
      validation_continues_past_failures
        [of "[''api'']" damaged_tree "[''api'', ''examples'', ''bad.json'']" "[]"
            JSONDecodeError "[''api'', ''notes.md'']" IsADirectoryError "[]" JSONDecodeError]
    by simp
qed


section \<open>The validator on sample trees\<close>

text \<open>
  Claim C4, evaluated. With \<^verbatim>\<open>examples/foo.json\<close> holding exactly the mapping of
  \<^verbatim>\<open>request\<close> and \<^verbatim>\<open>response\<close>, \<^verbatim>\<open>validate_all\<close> reports two errors for that
  file: \<^verbatim>\<open>validate_json_files\<close> visits every \<^verbatim>\<open>.json\<close> file below the root and
  treats each one not named \<^verbatim>\<open>_index.json\<close> as an endpoint descriptor. With the key
  \<^verbatim>\<open>response\<close> removed there are three entries for the file, one of which names
  \<^verbatim>\<open>response\<close>.
\<close>

theorem example_file_fails_json_pass:
  "errors (snd (validate_all [''api'']
       (examples_tree (PDict [(''request'', PDict []), (''response'', PDict [])]))))
     = [Missing_docs_directory_in ''docs'', Missing_index_json_in ''docs'',
        Missing_docs_directory_in ''examples'', Missing_index_json_in ''examples'',
        Missing_required_field ''endpoint'' [''api'', ''examples'', ''foo.json''],
        Missing_required_field ''data'' [''api'', ''examples'', ''foo.json''],
        Missing_required_field ''endpoint'' [''api'', ''index.json''],
        Missing_required_field ''data'' [''api'', ''index.json'']]
   \<and> errors (snd (validate_all [''api''] (examples_tree (PDict [(''request'', PDict [])]))))
     = [Missing_docs_directory_in ''docs'', Missing_index_json_in ''docs'',
        Missing_docs_directory_in ''examples'', Missing_index_json_in ''examples'',
        Missing_required_field ''endpoint'' [''api'', ''examples'', ''foo.json''],
        Missing_required_field ''data'' [''api'', ''examples'', ''foo.json''],
        Missing_required_field ''endpoint'' [''api'', ''index.json''],
        Missing_required_field ''data'' [''api'', ''index.json''],
        Missing_required_field_in_example ''response'' [''api'', ''examples'', ''foo.json'']]"
  by code_simp

text \<open>
  Claim C1, evaluated. The splitter, run on the sample document in a file system that
  holds the root directory only, returns; the validator, run on the tree it leaves, reports eight errors and
  one warning.
\<close>

theorem splitter_output_fails_validation:
  "(case process_raml (\<lambda>n. ''2024-01-01 00:00:00'') [''api''] (Inr sample_document) empty_tree of
      Inl e \<Rightarrow> False
    | Inr tree \<Rightarrow>
        validate_all [''api''] tree =
          (False,
           \<lparr>errors =
              [Missing_docs_directory_in ''docs'', Missing_index_json_in ''docs'',
               Missing_docs_directory_in ''examples'', Missing_index_json_in ''examples'',
               Missing_required_field ''endpoint'' [''api'', ''index.json''],
               Missing_required_field ''data'' [''api'', ''index.json''],
               Error_processing [''api'', ''interface'', ''ethernet.json''] AttributeError,
               Error_validating_cross_references TypeError],
            warnings =
              [Missing_section ''## Description''
                 [''api'', ''interface'', ''docs'', ''ethernet.md'']]\<rparr>))"
  by code_simp


section \<open>Running the splitter twice\<close>

lemma same_kind_refl [simp]: "same_kind a a"
  by (auto simp: same_kind_def split: option.splits node.splits)

lemma same_kind_sym: "same_kind a b \<Longrightarrow> same_kind b a"
  by (auto simp: same_kind_def split: option.splits node.splits)

lemma same_kind_trans: "same_kind a b \<Longrightarrow> same_kind b c \<Longrightarrow> same_kind a c"
  by (auto simp: same_kind_def split: option.splits node.splits)

lemma same_kind_None [simp]: "same_kind a None = (a = None)" "same_kind None a = (a = None)"
  by (auto simp: same_kind_def split: option.splits node.splits)

lemma same_kind_Dir [simp]:
  "same_kind a (Some Dir) = (a = Some Dir)" "same_kind (Some Dir) a = (a = Some Dir)"
  by (auto simp: same_kind_def split: option.splits node.splits)

lemma same_kind_File [simp]:
  "same_kind a (Some (File c)) = (\<exists>c'. a = Some (File c'))"
  "same_kind (Some (File c)) a = (\<exists>c'. a = Some (File c'))"
  by (auto simp: same_kind_def split: option.splits node.splits)

lemma grows_refl [simp]: "grows r r"
  by (simp add: grows_def)

lemma grows_trans: "grows a b \<Longrightarrow> grows b c \<Longrightarrow> grows a c"
  unfolding grows_def by (metis same_kind_None same_kind_trans)

lemma lookup_fmupd [simp]: "lookup (fmupd p n fs) q = (if q = p then Some n else lookup fs q)"
  by (simp add: lookup_def)

lemma write_file_result:
  "write_file p c r = Inr r' \<Longrightarrow> r' = fmupd p (File c) r \<and> lookup r p \<noteq> Some Dir"
  by (auto simp: write_file_def split: option.splits node.splits)

lemma write_file_grows: "write_file p c r = Inr r' \<Longrightarrow> grows r r'"
  by (auto simp: write_file_def grows_def split: option.splits node.splits)

lemma write_file_same_kind:
  assumes "same_kind (lookup r p) (lookup s p)" "same_kind (lookup r (butlast p)) (lookup s (butlast p))"
    and "write_file p c r = Inr r'"
  shows "write_file p c' s = Inr (fmupd p (File c') s)"
  using assms
  by (auto simp: write_file_def split: option.splits node.splits)

lemma write_file_existing:
  "lookup t p = Some (File c0) \<Longrightarrow> write_file p c t = Inr (fmupd p (File c) t)"
  by (simp add: write_file_def)

lemma write_file_sim:
  assumes w: "write_file p a r = Inr r'" and g: "grows r' F" and i: "inv3 F c1 c2 r s t"
    and c: "a = b \<or> (is_md p \<and> (\<exists>i path. a = PlainText (markdown_text (c1 i) path)
                                              \<and> b = PlainText (markdown_text (c2 i) path)))"
  shows "\<exists>s' t'. write_file p b s = Inr s' \<and> write_file p b t = Inr t' \<and> inv3 F c1 c2 r' s' t'"
proof -
  from w have r': "r' = fmupd p (File a) r" using write_file_result by blast
  from i have ag: "agree c1 c2 r s" by (simp add: inv3_def)
  then have ws: "write_file p b s = Inr (fmupd p (File b) s)"
    using write_file_same_kind [OF _ _ w] by (simp add: agree_def)
  from g r' have "\<exists>c. lookup F p = Some (File c)"
    unfolding grows_def by (metis lookup_fmupd option.distinct(1) same_kind_File(2))
  with i obtain c0 where "lookup t p = Some (File c0)"
    unfolding inv3_def by (metis same_kind_File(1))
  then have wt: "write_file p b t = Inr (fmupd p (File b) t)"
    by (rule write_file_existing)
  have "inv3 F c1 c2 r' (fmupd p (File b) s) (fmupd p (File b) t)"
    using i c g unfolding inv3_def agree_def r' grows_def timestamp_only_def
    by (auto split: if_splits)
  with ws wt show ?thesis by blast
qed

lemma os_mkdir_result:
  "os_mkdir p r = Inr r' \<Longrightarrow> r' = fmupd p Dir r \<and> lookup r p = None"
  by (auto simp: os_mkdir_def split: option.splits node.splits)

lemma os_mkdir_same_kind:
  assumes "\<forall>q. same_kind (lookup r q) (lookup s q)"
  shows "os_mkdir p s = (case os_mkdir p r of Inl e \<Rightarrow> Inl e | Inr r' \<Rightarrow> Inr (fmupd p Dir s))"
proof -
  have a: "same_kind (lookup r p) (lookup s p)"
    and b: "same_kind (lookup r (butlast p)) (lookup s (butlast p))"
    using assms by auto
  show ?thesis
    using a b
    by (auto simp: os_mkdir_def same_kind_def split: option.splits node.splits)
qed

lemma os_mkdir_grows: "os_mkdir p r = Inr r' \<Longrightarrow> grows r r'"
  by (auto simp: os_mkdir_def grows_def split: option.splits node.splits)

lemma mkdir_result:
  "mkdir True p r = Inr r' \<Longrightarrow>
     lookup r' p = Some Dir \<and> (r' = r \<or> (r' = fmupd p Dir r \<and> lookup r p = None))"
  by (auto simp: mkdir_def is_dir_def dest: os_mkdir_result split: sum.splits if_splits)

lemma mkdir_existing: "lookup t p = Some Dir \<Longrightarrow> mkdir True p t = Inr t"
  by (simp add: mkdir_def os_mkdir_def is_dir_def)

lemma mkdir_parents_existing: "lookup t p = Some Dir \<Longrightarrow> mkdir_parents True p t = Inr t"
  by (subst mkdir_parents.simps) (simp add: os_mkdir_def is_dir_def)

lemma dirs_added_refl [simp]: "dirs_added r r s s"
  by (simp add: dirs_added_def)

lemma dirs_added_trans:
  "dirs_added r r1 s s1 \<Longrightarrow> dirs_added r1 r2 s1 s2 \<Longrightarrow> dirs_added r r2 s s2"
  unfolding dirs_added_def by (metis option.distinct(1))

lemma dirs_added_same_kind:
  "\<forall>q. same_kind (lookup r q) (lookup s q) \<Longrightarrow> dirs_added r r' s s'
   \<Longrightarrow> \<forall>q. same_kind (lookup r' q) (lookup s' q)"
  unfolding dirs_added_def by (metis same_kind_Dir(1))

lemma dirs_added_grows: "dirs_added r r' s s' \<Longrightarrow> grows r r'"
  unfolding dirs_added_def grows_def by (metis same_kind_refl)

lemma mkdir_same_kind:
  assumes k: "\<forall>q. same_kind (lookup r q) (lookup s q)" and m: "mkdir True p r = Inr r'"
  shows "\<exists>s'. mkdir True p s = Inr s' \<and> dirs_added r r' s s'"
proof (cases "os_mkdir p r")
  case (Inl e)
  with m have "r' = r" "lookup r p = Some Dir" "e \<noteq> FileNotFoundError"
    by (auto simp: mkdir_def is_dir_def split: if_splits)
  moreover from this k have "lookup s p = Some Dir" by (metis same_kind_Dir(2))
  ultimately show ?thesis by (simp add: mkdir_existing)
next
  case (Inr r1)
  with m have r': "r' = fmupd p Dir r" "lookup r p = None"
    using os_mkdir_result by (auto simp: mkdir_def)
  from os_mkdir_same_kind [OF k, of p] Inr have "os_mkdir p s = Inr (fmupd p Dir s)" by simp
  then have "mkdir True p s = Inr (fmupd p Dir s)" by (simp add: mkdir_def)
  moreover have "dirs_added r r' s (fmupd p Dir s)"
    using r' by (auto simp: dirs_added_def)
  ultimately show ?thesis by blast
qed

lemma mkdir_parents_same_kind:
  "\<forall>q. same_kind (lookup r q) (lookup s q) \<Longrightarrow> mkdir_parents True p r = Inr r'
   \<Longrightarrow> \<exists>s'. mkdir_parents True p s = Inr s' \<and> dirs_added r r' s s'"
proof (induction p arbitrary: r r' s rule: rev_induct)
  case Nil
  show ?case
  proof (cases "os_mkdir [] r")
    case (Inl e)
    with Nil.prems(2) have "r' = r" "lookup r [] = Some Dir"
      by (auto simp: mkdir_parents.simps [of True "[]" r] is_dir_def split: if_splits)
    moreover from this Nil.prems(1) have "lookup s [] = Some Dir" by (metis same_kind_Dir(2))
    ultimately show ?thesis using mkdir_parents_existing [of s "[]"] by simp
  next
    case (Inr r1)
    with Nil.prems(2) have r': "r' = fmupd [] Dir r" "lookup r [] = None"
      using os_mkdir_result [of "[]" r r1] by (auto simp: mkdir_parents.simps [of True "[]" r])
    from os_mkdir_same_kind [OF Nil.prems(1), of "[]"] Inr
    have "os_mkdir [] s = Inr (fmupd [] Dir s)" by simp
    then have "mkdir_parents True [] s = Inr (fmupd [] Dir s)"
      by (simp add: mkdir_parents.simps [of True "[]" s])
    moreover have "dirs_added r r' s (fmupd [] Dir s)"
      using r' by (auto simp: dirs_added_def)
    ultimately show ?thesis by blast
  qed
next
  case (snoc x xs)
  let ?p = "xs @ [x]"
  show ?case
  proof (cases "os_mkdir ?p r")
    case (Inr r1)
    with snoc.prems(2) have r': "r' = fmupd ?p Dir r" "lookup r ?p = None"
      using os_mkdir_result [of ?p r r1] by (auto simp: mkdir_parents.simps [of True ?p r])
    from os_mkdir_same_kind [OF snoc.prems(1), of ?p] Inr
    have "os_mkdir ?p s = Inr (fmupd ?p Dir s)" by simp
    then have "mkdir_parents True ?p s = Inr (fmupd ?p Dir s)"
      by (simp add: mkdir_parents.simps [of True ?p s])
    moreover have "dirs_added r r' s (fmupd ?p Dir s)"
      using r' by (auto simp: dirs_added_def)
    ultimately show ?thesis by blast
  next
    case (Inl e)
    from os_mkdir_same_kind [OF snoc.prems(1), of ?p] Inl
    have os: "os_mkdir ?p s = Inl e" by simp
    show ?thesis
    proof (cases "e = FileNotFoundError")
      case False
      with Inl snoc.prems(2) have "r' = r" "lookup r ?p = Some Dir"
        by (auto simp: mkdir_parents.simps [of True ?p r] is_dir_def split: if_splits)
      moreover from this snoc.prems(1) have "lookup s ?p = Some Dir" by (metis same_kind_Dir(2))
      ultimately show ?thesis using mkdir_parents_existing [of s ?p] by simp
    next
      case True
      with Inl snoc.prems(2) obtain r1 where
        r1: "mkdir_parents True xs r = Inr r1" and m: "mkdir True ?p r1 = Inr r'"
        by (auto simp: mkdir_parents.simps [of True ?p r] split: sum.splits)
      from snoc.IH [OF snoc.prems(1) r1] obtain s1 where
        s1: "mkdir_parents True xs s = Inr s1" and d1: "dirs_added r r1 s s1" by blast
      from dirs_added_same_kind [OF snoc.prems(1) d1]
      have k1: "\<forall>q. same_kind (lookup r1 q) (lookup s1 q)" .
      from mkdir_same_kind [OF k1 m] obtain s' where
        s': "mkdir True ?p s1 = Inr s'" and d2: "dirs_added r1 r' s1 s'" by blast
      have "mkdir_parents True ?p s = Inr s'"
        using os True s1 s' by (simp add: mkdir_parents.simps [of True ?p s])
      with dirs_added_trans [OF d1 d2] show ?thesis by blast
    qed
  qed
qed

lemma mkdir_parents_dir:
  "mkdir_parents True p r = Inr r' \<Longrightarrow> lookup r' p = Some Dir"
proof -
  assume m: "mkdir_parents True p r = Inr r'"
  show ?thesis
  proof (cases "os_mkdir p r")
    case (Inr r1)
    with m show ?thesis using os_mkdir_result [of p r r1]
      by (auto simp: mkdir_parents.simps [of True p r])
  next
    case (Inl e)
    with m show ?thesis
      by (auto simp: mkdir_parents.simps [of True p r] is_dir_def
          split: if_splits sum.splits dest: mkdir_result)
  qed
qed

lemma agree_same_kind: "agree c1 c2 r s \<Longrightarrow> \<forall>q. same_kind (lookup r q) (lookup s q)"
  by (simp add: agree_def)

lemma inv3_dirs_added:
  assumes i: "inv3 F c1 c2 r s t" and d: "dirs_added r r' s s'" and g: "grows r' F"
  shows "inv3 F c1 c2 r' s' t"
proof -
  have "agree c1 c2 r' s'"
    unfolding agree_def
  proof (intro allI)
    fix p
    from d consider "lookup r' p = lookup r p \<and> lookup s' p = lookup s p"
      | "lookup r' p = Some Dir \<and> lookup s' p = Some Dir"
      unfolding dirs_added_def by blast
    then show "same_kind (lookup r' p) (lookup s' p)
               \<and> (\<not> is_md p \<longrightarrow> lookup s' p = lookup r' p)
               \<and> timestamp_only c1 c2 (lookup r' p) (lookup s' p)"
    proof cases
      case 1
      with i show ?thesis by (simp add: inv3_def agree_def)
    next
      case 2
      then show ?thesis by (simp add: timestamp_only_def)
    qed
  qed
  moreover have "\<forall>p. lookup t p = lookup s' p \<or> (lookup t p = lookup F p \<and> lookup s' p = lookup r' p)"
  proof
    fix p
    from d consider "lookup r' p = lookup r p \<and> lookup s' p = lookup s p"
      | "lookup r' p = Some Dir \<and> lookup s' p = Some Dir"
      unfolding dirs_added_def by blast
    then show "lookup t p = lookup s' p \<or> (lookup t p = lookup F p \<and> lookup s' p = lookup r' p)"
    proof cases
      case 1
      with i show ?thesis unfolding inv3_def by metis
    next
      case 2
      with g have "lookup F p = Some Dir" unfolding grows_def
        by (metis option.distinct(1) same_kind_Dir(2))
      with i have "lookup t p = Some Dir" unfolding inv3_def by (metis same_kind_Dir(1))
      with 2 show ?thesis by simp
    qed
  qed
  ultimately show ?thesis using i by (simp add: inv3_def)
qed

lemma inv3_dir_in_t:
  assumes i: "inv3 F c1 c2 r s t" and g: "grows r' F" and d: "lookup r' p = Some Dir"
  shows "lookup t p = Some Dir"
proof -
  from g d have "lookup F p = Some Dir" unfolding grows_def
    by (metis option.distinct(1) same_kind_Dir(2))
  with i show ?thesis unfolding inv3_def by (metis same_kind_Dir(1))
qed

lemma mkdir_parents_sim:
  assumes m: "mkdir_parents True p r = Inr r'" and g: "grows r' F" and i: "inv3 F c1 c2 r s t"
  shows "\<exists>s'. mkdir_parents True p s = Inr s' \<and> mkdir_parents True p t = Inr t
              \<and> inv3 F c1 c2 r' s' t"
proof -
  from i have k: "\<forall>q. same_kind (lookup r q) (lookup s q)"
    by (simp add: inv3_def agree_def)
  from mkdir_parents_same_kind [OF k m] obtain s' where
    s': "mkdir_parents True p s = Inr s'" and d: "dirs_added r r' s s'" by blast
  have "lookup t p = Some Dir"
    using inv3_dir_in_t [OF i g mkdir_parents_dir [OF m]] .
  then have "mkdir_parents True p t = Inr t" by (rule mkdir_parents_existing)
  with s' inv3_dirs_added [OF i d g] show ?thesis by blast
qed

lemma mkdir_sim:
  assumes m: "mkdir True p r = Inr r'" and g: "grows r' F" and i: "inv3 F c1 c2 r s t"
  shows "\<exists>s'. mkdir True p s = Inr s' \<and> mkdir True p t = Inr t \<and> inv3 F c1 c2 r' s' t"
proof -
  from i have k: "\<forall>q. same_kind (lookup r q) (lookup s q)"
    by (simp add: inv3_def agree_def)
  from mkdir_same_kind [OF k m] obtain s' where
    s': "mkdir True p s = Inr s'" and d: "dirs_added r r' s s'" by blast
  from mkdir_result [OF m] have "lookup r' p = Some Dir" by simp
  then have "lookup t p = Some Dir" using inv3_dir_in_t [OF i g] by blast
  then have "mkdir True p t = Inr t" by (rule mkdir_existing)
  with s' inv3_dirs_added [OF i d g] show ?thesis by blast
qed

lemma mkdir_grows: "mkdir True p r = Inr r' \<Longrightarrow> grows r r'"
  using mkdir_same_kind [of r r p r'] dirs_added_grows by (metis same_kind_refl)

lemma mkdir_parents_grows: "mkdir_parents True p r = Inr r' \<Longrightarrow> grows r r'"
  using mkdir_parents_same_kind [of r r p r'] dirs_added_grows by (metis same_kind_refl)

lemma process_endpoint_alt:
  "process_endpoint c e d fd st =
     (case enhance e d of
        Inl er \<Rightarrow> Inl er
      | Inr x \<Rightarrow>
          (case write_file (endpoint_file fd e) (JsonText x) (fst st) of
             Inl er \<Rightarrow> Inl er
           | Inr fs1 \<Rightarrow>
               (case write_file (doc_file fd e) (PlainText (markdown_text (c (snd st)) e)) fs1 of
                  Inl er \<Rightarrow> Inl er
                | Inr fs2 \<Rightarrow> Inr (x, fs2, Suc (snd st)))))"
  by (simp add: process_endpoint_def enhance_def Let_def generate_markdown_enhanced
      markdown_text_def split: sum.splits)

lemma is_md_doc_file: "is_md (doc_file fd e)"
  using joinpath_suffix_name [of "''.md''"] by (simp add: is_md_def doc_file_def)

lemma process_endpoint_grows:
  "process_endpoint c e d fd (r, n) = Inr (x, r', n') \<Longrightarrow> grows r r'"
  by (auto simp: process_endpoint_alt split: sum.splits
      dest!: write_file_grows intro: grows_trans)

lemma process_endpoint_sim:
  assumes p: "process_endpoint c1 e d fd (r, n) = Inr (x, r', n')"
    and g: "grows r' F" and i: "inv3 F c1 c2 r s t"
  shows "\<exists>s' t'. process_endpoint c2 e d fd (s, n) = Inr (x, s', n')
               \<and> process_endpoint c2 e d fd (t, n) = Inr (x, t', n')
               \<and> inv3 F c1 c2 r' s' t'"
proof -
  from p obtain r1 where
    x: "enhance e d = Inr x"
    and w1: "write_file (endpoint_file fd e) (JsonText x) r = Inr r1"
    and w2: "write_file (doc_file fd e) (PlainText (markdown_text (c1 n) e)) r1 = Inr r'"
    and n': "n' = Suc n"
    by (auto simp: process_endpoint_alt split: sum.splits)
  from write_file_grows [OF w2] g have g1: "grows r1 F" by (rule grows_trans)
  from write_file_sim [OF w1 g1 i, of "JsonText x"] obtain s1 t1 where
    s1: "write_file (endpoint_file fd e) (JsonText x) s = Inr s1"
    and t1: "write_file (endpoint_file fd e) (JsonText x) t = Inr t1"
    and i1: "inv3 F c1 c2 r1 s1 t1" by auto
  have "is_md (doc_file fd e) \<and> (\<exists>i path.
          PlainText (markdown_text (c1 n) e) = PlainText (markdown_text (c1 i) path)
          \<and> PlainText (markdown_text (c2 n) e) = PlainText (markdown_text (c2 i) path))"
    using is_md_doc_file by blast
  with write_file_sim [OF w2 g i1, of "PlainText (markdown_text (c2 n) e)"]
  obtain s2 t2 where
    s2: "write_file (doc_file fd e) (PlainText (markdown_text (c2 n) e)) s1 = Inr s2"
    and t2: "write_file (doc_file fd e) (PlainText (markdown_text (c2 n) e)) t1 = Inr t2"
    and i2: "inv3 F c1 c2 r' s2 t2" by auto
  show ?thesis
    using x s1 t1 s2 t2 i2 n' by (simp add: process_endpoint_alt)
qed

lemma process_endpoints_grows:
  "process_endpoints c fd kvs acc (r, n) = Inr (xs, r', n') \<Longrightarrow> grows r r'"
proof (induction kvs arbitrary: acc r n)
  case Nil
  then show ?case by simp
next
  case (Cons kv kvs)
  obtain e d where kv: "kv = (e, d)" by (cases kv)
  show ?case
  proof (cases "is_dict d")
    case False
    with Cons kv show ?thesis by simp
  next
    case True
    with Cons.prems kv obtain x r1 n1 where
      p: "process_endpoint c e d fd (r, n) = Inr (x, r1, n1)"
      and rest: "process_endpoints c fd kvs (acc @ [x]) (r1, n1) = Inr (xs, r', n')"
      by (auto split: sum.splits)
    from process_endpoint_grows [OF p] Cons.IH [OF rest] show ?thesis by (rule grows_trans)
  qed
qed

lemma process_endpoints_sim:
  assumes "process_endpoints c1 fd kvs acc (r, n) = Inr (xs, r', n')"
    and "grows r' F" and "inv3 F c1 c2 r s t"
  shows "\<exists>s' t'. process_endpoints c2 fd kvs acc (s, n) = Inr (xs, s', n')
               \<and> process_endpoints c2 fd kvs acc (t, n) = Inr (xs, t', n')
               \<and> inv3 F c1 c2 r' s' t'"
  using assms
proof (induction kvs arbitrary: acc r s t n)
  case Nil
  then show ?case by auto
next
  case (Cons kv kvs)
  obtain e d where kv: "kv = (e, d)" by (cases kv)
  show ?case
  proof (cases "is_dict d")
    case False
    with Cons kv show ?thesis by simp
  next
    case True
    with Cons.prems(1) kv obtain x r1 n1 where
      p: "process_endpoint c1 e d fd (r, n) = Inr (x, r1, n1)"
      and rest: "process_endpoints c1 fd kvs (acc @ [x]) (r1, n1) = Inr (xs, r', n')"
      by (auto split: sum.splits)
    from process_endpoints_grows [OF rest] Cons.prems(2) have g1: "grows r1 F"
      by (rule grows_trans)
    from process_endpoint_sim [OF p g1 Cons.prems(3)] obtain s1 t1 where
      s1: "process_endpoint c2 e d fd (s, n) = Inr (x, s1, n1)"
      and t1: "process_endpoint c2 e d fd (t, n) = Inr (x, t1, n1)"
      and i1: "inv3 F c1 c2 r1 s1 t1" by blast
    from Cons.IH [OF rest Cons.prems(2) i1] obtain s' t' where
      "process_endpoints c2 fd kvs (acc @ [x]) (s1, n1) = Inr (xs, s', n')"
      "process_endpoints c2 fd kvs (acc @ [x]) (t1, n1) = Inr (xs, t', n')"
      "inv3 F c1 c2 r' s' t'" by blast
    with s1 t1 True kv show ?thesis by simp
  qed
qed

lemma process_family_grows:
  "process_family c family endpoints fd (r, n) = Inr (r', n') \<Longrightarrow> grows r r'"
  by (auto simp: process_family_def split: sum.splits prod.splits
      dest!: write_file_grows process_endpoints_grows intro: grows_trans)

lemma process_family_sim:
  assumes p: "process_family c1 family endpoints fd (r, n) = Inr (r', n')"
    and g: "grows r' F" and i: "inv3 F c1 c2 r s t"
  shows "\<exists>s' t'. process_family c2 family endpoints fd (s, n) = Inr (s', n')
               \<and> process_family c2 family endpoints fd (t, n) = Inr (t', n')
               \<and> inv3 F c1 c2 r' s' t'"
proof -
  let ?idx = "\<lambda>xs. JsonText (PDict [(''family'', PStr family), (''endpoints'', PList xs),
                                    (''examples'', PList [])])"
  from p obtain kvs xs r1 where
    kvs: "items endpoints = Inr kvs"
    and pe: "process_endpoints c1 fd kvs [] (r, n) = Inr (xs, r1, n')"
    and w: "write_file (fd @ [''_index.json'']) (?idx xs) r1 = Inr r'"
    by (auto simp: process_family_def split: sum.splits prod.splits)
  from write_file_grows [OF w] g have g1: "grows r1 F" by (rule grows_trans)
  from process_endpoints_sim [OF pe g1 i] obtain s1 t1 where
    s1: "process_endpoints c2 fd kvs [] (s, n) = Inr (xs, s1, n')"
    and t1: "process_endpoints c2 fd kvs [] (t, n) = Inr (xs, t1, n')"
    and i1: "inv3 F c1 c2 r1 s1 t1" by blast
  from write_file_sim [OF w g i1, of "?idx xs"] obtain s' t' where
    "write_file (fd @ [''_index.json'']) (?idx xs) s1 = Inr s'"
    "write_file (fd @ [''_index.json'']) (?idx xs) t1 = Inr t'"
    "inv3 F c1 c2 r' s' t'" by auto
  with kvs s1 t1 show ?thesis by (simp add: process_family_def)
qed

lemma create_family_directory_grows:
  "create_family_directory b fam r = Inr (fd, r') \<Longrightarrow> grows r r'"
  by (auto simp: create_family_directory_def Let_def split: sum.splits
      dest!: mkdir_grows mkdir_parents_grows intro: grows_trans)

lemma create_family_directory_sim:
  assumes c: "create_family_directory b fam r = Inr (fd, r')"
    and g: "grows r' F" and i: "inv3 F c1 c2 r s t"
  shows "\<exists>s'. create_family_directory b fam s = Inr (fd, s')
            \<and> create_family_directory b fam t = Inr (fd, t)
            \<and> inv3 F c1 c2 r' s' t"
proof -
  from c obtain r1 where
    fd: "fd = joinpath b fam"
    and m1: "mkdir_parents True fd r = Inr r1"
    and m2: "mkdir True (joinpath fd ''docs'') r1 = Inr r'"
    by (auto simp: create_family_directory_def Let_def split: sum.splits)
  from mkdir_grows [OF m2] g have g1: "grows r1 F" by (rule grows_trans)
  from mkdir_parents_sim [OF m1 g1 i] obtain s1 where
    s1: "mkdir_parents True fd s = Inr s1" and t1: "mkdir_parents True fd t = Inr t"
    and i1: "inv3 F c1 c2 r1 s1 t" by blast
  from mkdir_sim [OF m2 g i1] obtain s' where
    "mkdir True (joinpath fd ''docs'') s1 = Inr s'"
    "mkdir True (joinpath fd ''docs'') t = Inr t" "inv3 F c1 c2 r' s' t" by blast
  with s1 t1 fd show ?thesis by (simp add: create_family_directory_def Let_def)
qed

lemma split_families_grows:
  "split_families c b kvs (r, n) = Inr (r', n') \<Longrightarrow> grows r r'"
proof (induction kvs arbitrary: r n)
  case Nil
  then show ?case by simp
next
  case (Cons kv kvs)
  obtain fam eps where kv: "kv = (fam, eps)" by (cases kv)
  show ?case
  proof (cases "startswith fam ''/''")
    case False
    with Cons kv show ?thesis by simp
  next
    case True
    with Cons.prems kv obtain fd r1 r2 n2 where
      c: "create_family_directory b (strip_slashes fam) r = Inr (fd, r1)"
      and p: "process_family c fam eps fd (r1, n) = Inr (r2, n2)"
      and rest: "split_families c b kvs (r2, n2) = Inr (r', n')"
      by (auto split: sum.splits)
    from create_family_directory_grows [OF c] process_family_grows [OF p] Cons.IH [OF rest]
    show ?thesis by (blast intro: grows_trans)
  qed
qed

lemma split_families_sim:
  assumes "split_families c1 b kvs (r, n) = Inr (r', n')"
    and "grows r' F" and "inv3 F c1 c2 r s t"
  shows "\<exists>s' t'. split_families c2 b kvs (s, n) = Inr (s', n')
               \<and> split_families c2 b kvs (t, n) = Inr (t', n')
               \<and> inv3 F c1 c2 r' s' t'"
  using assms
proof (induction kvs arbitrary: r s t n)
  case Nil
  then show ?case by auto
next
  case (Cons kv kvs)
  obtain fam eps where kv: "kv = (fam, eps)" by (cases kv)
  show ?case
  proof (cases "startswith fam ''/''")
    case False
    with Cons kv show ?thesis by simp
  next
    case True
    with Cons.prems(1) kv obtain fd r1 r2 n2 where
      c: "create_family_directory b (strip_slashes fam) r = Inr (fd, r1)"
      and p: "process_family c1 fam eps fd (r1, n) = Inr (r2, n2)"
      and rest: "split_families c1 b kvs (r2, n2) = Inr (r', n')"
      by (auto split: sum.splits)
    from split_families_grows [OF rest] Cons.prems(2) have g2: "grows r2 F"
      by (rule grows_trans)
    from process_family_grows [OF p] g2 have g1: "grows r1 F" by (rule grows_trans)
    from create_family_directory_sim [OF c g1 Cons.prems(3)] obtain s1 where
      s1: "create_family_directory b (strip_slashes fam) s = Inr (fd, s1)"
      and t1: "create_family_directory b (strip_slashes fam) t = Inr (fd, t)"
      and i1: "inv3 F c1 c2 r1 s1 t" by blast
    from process_family_sim [OF p g2 i1] obtain s2 t2 where
      s2: "process_family c2 fam eps fd (s1, n) = Inr (s2, n2)"
      and t2: "process_family c2 fam eps fd (t, n) = Inr (t2, n2)"
      and i2: "inv3 F c1 c2 r2 s2 t2" by blast
    from Cons.IH [OF rest Cons.prems(2) i2] obtain s' t' where
      "split_families c2 b kvs (s2, n2) = Inr (s', n')"
      "split_families c2 b kvs (t2, n2) = Inr (t', n')" "inv3 F c1 c2 r' s' t'" by blast
    with s1 t1 s2 t2 True kv show ?thesis by simp
  qed
qed

lemma mkdir_each_grows: "mkdir_each ps r = Inr r' \<Longrightarrow> grows r r'"
proof (induction ps arbitrary: r)
  case Nil
  then show ?case by simp
next
  case (Cons p ps)
  then obtain r1 where m: "mkdir_parents True p r = Inr r1" and rest: "mkdir_each ps r1 = Inr r'"
    by (auto split: sum.splits)
  from mkdir_parents_grows [OF m] Cons.IH [OF rest] show ?case by (rule grows_trans)
qed

lemma mkdir_each_sim:
  assumes "mkdir_each ps r = Inr r'" and "grows r' F" and "inv3 F c1 c2 r s t"
  shows "\<exists>s'. mkdir_each ps s = Inr s' \<and> mkdir_each ps t = Inr t \<and> inv3 F c1 c2 r' s' t"
  using assms
proof (induction ps arbitrary: r s)
  case Nil
  then show ?case by auto
next
  case (Cons p ps)
  from Cons.prems(1) obtain r1 where
    m: "mkdir_parents True p r = Inr r1" and rest: "mkdir_each ps r1 = Inr r'"
    by (auto split: sum.splits)
  from mkdir_each_grows [OF rest] Cons.prems(2) have g1: "grows r1 F" by (rule grows_trans)
  from mkdir_parents_sim [OF m g1 Cons.prems(3)] obtain s1 where
    s1: "mkdir_parents True p s = Inr s1" and t1: "mkdir_parents True p t = Inr t"
    and i1: "inv3 F c1 c2 r1 s1 t" by blast
  from Cons.IH [OF rest Cons.prems(2) i1] obtain s' where
    "mkdir_each ps s1 = Inr s'" "mkdir_each ps t = Inr t" "inv3 F c1 c2 r' s' t" by blast
  with s1 t1 show ?case by simp
qed

lemma fmdom_same_kind:
  assumes "\<forall>q. same_kind (lookup r q) (lookup s q)"
  shows "fmdom r = fmdom s"
proof (rule fset_eqI)
  fix x
  from assms have "same_kind (lookup r x) (lookup s x)" by simp
  then have "(fmlookup r x = None) = (fmlookup s x = None)"
    by (auto simp: lookup_def same_kind_def split: option.splits node.splits)
  then show "(x |\<in>| fmdom r) = (x |\<in>| fmdom s)"
    unfolding fmlookup_dom_iff by (metis not_None_eq)
qed

lemma is_dir_same_kind:
  "same_kind (lookup r q) (lookup s q) \<Longrightarrow> is_dir s q = is_dir r q"
  by (auto simp: is_dir_def same_kind_def split: option.splits node.splits)

lemma exists_same_kind:
  "same_kind (lookup r q) (lookup s q) \<Longrightarrow> exists s q = exists r q"
  by (auto simp: exists_def same_kind_def split: option.splits node.splits)

lemma glob_children_same_kind:
  assumes "\<forall>q. same_kind (lookup r q) (lookup s q)"
  shows "glob_children s d = glob_children r d"
proof -
  have "is_dir s d = is_dir r d" using assms is_dir_same_kind by blast
  with fmdom_same_kind [OF assms] show ?thesis
    by (simp add: glob_children_def entries_def)
qed

lemma collect_families_cong:
  assumes "\<And>q. q \<in> set xs \<Longrightarrow> is_dir s q = is_dir r q"
    and "\<And>q. q \<in> set xs \<Longrightarrow> is_dir r q
            \<Longrightarrow> lookup s (q @ [''_index.json'']) = lookup r (q @ [''_index.json''])"
  shows "collect_families s xs acc = collect_families r xs acc"
  using assms
proof (induction xs arbitrary: acc)
  case Nil
  then show ?case by simp
next
  case (Cons x xs)
  have d: "is_dir s x = is_dir r x" using Cons.prems(1) by simp
  have rest: "collect_families s xs acc' = collect_families r xs acc'" for acc'
    using Cons.IH Cons.prems by simp
  show ?case
  proof (cases "is_dir r x")
    case False
    with d rest show ?thesis by simp
  next
    case True
    then have "lookup s (x @ [''_index.json'']) = lookup r (x @ [''_index.json''])"
      using Cons.prems(2) by simp
    then show ?thesis using d rest
      by (simp add: exists_def read_json_def
          split: option.splits node.splits content.splits sum.splits)
  qed
qed

lemma collect_families_dirs:
  "collect_families fs xs acc = collect_families fs (filter (is_dir fs) xs) acc"
  by (induction xs arbitrary: acc) (auto split: sum.splits)

lemma sorted_entries: "sorted (entries fs) \<and> distinct (entries fs)"
  by (simp add: entries_def sorted_list_of_fset.rep_eq)

lemma set_entries: "set (entries fs) = {q. lookup fs q \<noteq> None}"
  by (auto simp: entries_def sorted_list_of_fset.rep_eq lookup_def fmlookup_dom_iff)

lemma dirs_of_eq:
  assumes "\<forall>q. is_dir t q = is_dir s q"
  shows "filter (is_dir t) (glob_children t d) = filter (is_dir s) (glob_children s d)"
proof (cases "is_dir s d")
  case False
  with assms show ?thesis by (simp add: glob_children_def)
next
  case True
  let ?P = "\<lambda>fs q. (q \<noteq> [] \<and> butlast q = d) \<and> is_dir fs q"
  have l: "filter (is_dir fs) (filter (\<lambda>q. q \<noteq> [] \<and> butlast q = d) (entries fs))
         = filter (?P fs) (entries fs)" for fs
    by (simp add: conj_commute)
  have "sorted (filter (?P t) (entries t))" "distinct (filter (?P t) (entries t))"
    "sorted (filter (?P s) (entries s))" "distinct (filter (?P s) (entries s))"
    using sorted_entries by (simp_all add: sorted_wrt_filter)
  moreover have "set (filter (?P t) (entries t)) = set (filter (?P s) (entries s))"
    using assms by (auto simp: set_entries is_dir_def)
  ultimately have "filter (?P t) (entries t) = filter (?P s) (entries s)"
    by (metis sorted_distinct_set_unique)
  with True assms l show ?thesis by (simp add: glob_children_def)
qed

lemma not_md_index: "\<not> is_md (q @ [''_index.json''])"
  by (simp add: is_md_def name_of_def endswith_def suffix_def)

lemma generate_index_grows: "generate_index c b (r, n) = Inr (r', n') \<Longrightarrow> grows r r'"
  by (auto simp: generate_index_def split: sum.splits dest: write_file_grows)

lemma index_path_differs: "q @ [''_index.json''] \<noteq> b @ [''index.json'']"
  by simp

lemma generate_index_sim:
  assumes gi: "generate_index c1 b (r, n) = Inr (F, n')" and i: "inv3 F c1 c2 r s t"
  shows "\<exists>X families.
           generate_index c2 b (s, n) = Inr (X, n')
         \<and> generate_index c2 b (t, n) = Inr (X, n')
         \<and> (\<forall>p. p \<noteq> b @ [''index.json''] \<longrightarrow> lookup X p = lookup s p \<and> lookup F p = lookup r p)
         \<and> lookup F (b @ [''index.json''])
             = Some (File (JsonText (PDict [(''generated_at'', PStr (c1 n)),
                                            (''families'', PList families)])))
         \<and> lookup X (b @ [''index.json''])
             = Some (File (JsonText (PDict [(''generated_at'', PStr (c2 n)),
                                            (''families'', PList families)])))"
proof -
  let ?idx = "b @ [''index.json'']"
  let ?doc = "\<lambda>c fams. JsonText (PDict [(''generated_at'', PStr (c n)), (''families'', PList fams)])"
  from gi obtain fams where
    cr: "collect_families r (glob_children r b) [] = Inr fams"
    and wr: "write_file ?idx (?doc c1 fams) r = Inr F" and n': "n' = Suc n"
    by (auto simp: generate_index_def split: sum.splits)
  from write_file_result [OF wr] have F: "F = fmupd ?idx (File (?doc c1 fams)) r"
    and nd: "lookup r ?idx \<noteq> Some Dir" by auto
  from i have ag: "agree c1 c2 r s" by (simp add: inv3_def)
  then have k: "\<forall>q. same_kind (lookup r q) (lookup s q)" by (simp add: agree_def)
  have gs: "glob_children s b = glob_children r b" by (rule glob_children_same_kind [OF k])
  have "collect_families s (glob_children r b) [] = collect_families r (glob_children r b) []"
  proof (rule collect_families_cong)
    fix q show "is_dir s q = is_dir r q" using k is_dir_same_kind by blast
  next
    fix q show "lookup s (q @ [''_index.json'']) = lookup r (q @ [''_index.json''])"
      using ag not_md_index [of q] by (simp add: agree_def)
  qed
  with cr gs have cs: "collect_families s (glob_children s b) [] = Inr fams" by simp
  have ws: "write_file ?idx (?doc c2 fams) s = Inr (fmupd ?idx (File (?doc c2 fams)) s)"
    by (rule write_file_same_kind [OF _ _ wr]) (use k in simp_all)
  have eq: "lookup t p = lookup s p" if "p \<noteq> ?idx" for p
  proof -
    from i have "lookup t p = lookup s p \<or> (lookup t p = lookup F p \<and> lookup s p = lookup r p)"
      by (simp add: inv3_def)
    moreover have "lookup F p = lookup r p" using that by (simp add: F)
    ultimately show ?thesis by auto
  qed
  from i have "same_kind (lookup t ?idx) (lookup F ?idx)" by (simp add: inv3_def)
  then obtain c0 where tf: "lookup t ?idx = Some (File c0)" by (auto simp: F)
  have dirs: "\<forall>q. is_dir t q = is_dir s q"
  proof
    fix q
    show "is_dir t q = is_dir s q"
    proof (cases "q = ?idx")
      case False
      then show ?thesis by (simp add: is_dir_def eq)
    next
      case True
      have "same_kind (lookup r ?idx) (lookup s ?idx)" using k by simp
      with nd have "lookup s ?idx \<noteq> Some Dir" by auto
      with tf True show ?thesis by (simp add: is_dir_def)
    qed
  qed
  have "collect_families t (glob_children t b) []
      = collect_families t (filter (is_dir t) (glob_children t b)) []"
    by (rule collect_families_dirs)
  also have "\<dots> = collect_families t (filter (is_dir s) (glob_children s b)) []"
    by (simp add: dirs_of_eq [OF dirs])
  also have "\<dots> = collect_families s (filter (is_dir s) (glob_children s b)) []"
  proof (rule collect_families_cong)
    fix q show "is_dir t q = is_dir s q" using dirs by simp
  next
    fix q show "lookup t (q @ [''_index.json'']) = lookup s (q @ [''_index.json''])"
      by (rule eq) simp
  qed
  also have "\<dots> = collect_families s (glob_children s b) []"
    by (rule collect_families_dirs [symmetric])
  finally have ct: "collect_families t (glob_children t b) [] = Inr fams" using cs by simp
  have wt: "write_file ?idx (?doc c2 fams) t = Inr (fmupd ?idx (File (?doc c2 fams)) t)"
    using tf by (rule write_file_existing)
  have same: "fmupd ?idx (File (?doc c2 fams)) t = fmupd ?idx (File (?doc c2 fams)) s"
  proof (rule fmap_ext)
    fix p
    show "fmlookup (fmupd ?idx (File (?doc c2 fams)) t) p
        = fmlookup (fmupd ?idx (File (?doc c2 fams)) s) p"
      using eq [of p] by (simp add: lookup_def)
  qed
  let ?X = "fmupd ?idx (File (?doc c2 fams)) s"
  have "generate_index c2 b (s, n) = Inr (?X, n')"
    using cs ws n' by (simp add: generate_index_def)
  moreover have "generate_index c2 b (t, n) = Inr (?X, n')"
    using ct wt same n' by (simp add: generate_index_def)
  moreover have "\<forall>p. p \<noteq> ?idx \<longrightarrow> lookup ?X p = lookup s p \<and> lookup F p = lookup r p"
    by (simp add: F)
  moreover have "lookup F ?idx = Some (File (?doc c1 fams))" by (simp add: F)
  moreover have "lookup ?X ?idx = Some (File (?doc c2 fams))" by simp
  ultimately show ?thesis by blast
qed

lemma split_raml_grows: "split_raml c b doc (r, n) = Inr (r', n') \<Longrightarrow> grows r r'"
  by (auto simp: split_raml_def split: sum.splits dest: split_families_grows)

lemma split_raml_sim:
  assumes "split_raml c1 b doc (r, n) = Inr (r', n')"
    and "grows r' F" and "inv3 F c1 c2 r s t"
  shows "\<exists>s' t'. split_raml c2 b doc (s, n) = Inr (s', n')
               \<and> split_raml c2 b doc (t, n) = Inr (t', n')
               \<and> inv3 F c1 c2 r' s' t'"
proof -
  from assms(1) obtain kvs where kvs: "items doc = Inr kvs"
    and sf: "split_families c1 b kvs (r, n) = Inr (r', n')"
    by (auto simp: split_raml_def split: sum.splits)
  from split_families_sim [OF sf assms(2,3)] kvs show ?thesis
    by (simp add: split_raml_def)
qed

lemma inv3_start: "inv3 F c1 c2 r r F"
  by (simp add: inv3_def agree_def timestamp_only_def)

text \<open>
  Claim C2, as stated, fails: the Markdown document of an endpoint carries the time of
  the run in its second line, so two runs at different times leave different
  documents.
\<close>

theorem second_run_changes_markdown:
  "succeeds (process_raml morning [''api''] (Inr sample_document) empty_tree)
   \<and> succeeds (process_raml evening [''api''] (Inr sample_document) first_run)
   \<and> read_text first_run [''api'', ''interface'', ''docs'', ''ethernet.md'']
       = Inr (''# /ethernet API Documentation'' @ [CHR 0x0A]
              @ ''Generated on: 2024-01-01 09:00:00'' @ [CHR 0x0A]
              @ ''## Endpoints'' @ [CHR 0x0A])
   \<and> read_text second_run [''api'', ''interface'', ''docs'', ''ethernet.md'']
       = Inr (''# /ethernet API Documentation'' @ [CHR 0x0A]
              @ ''Generated on: 2024-01-01 21:00:00'' @ [CHR 0x0A]
              @ ''## Endpoints'' @ [CHR 0x0A])"
  by code_simp

text \<open>
  Claim C2, amended. When a run of the splitter returns, a second run on the same input
  over the tree the first one left returns too, and leaves the very tree that a single
  run with the clock readings of the second run leaves. Every file other than the root
  \<^verbatim>\<open>index.json\<close> has the same content after both runs or is a Markdown document
  that differs in the time of its \<^verbatim>\<open>Generated on:\<close> line only; the root
  \<^verbatim>\<open>index.json\<close> differs in \<^verbatim>\<open>generated_at\<close> only.
\<close>

theorem rerun_changes_timestamps_only:
  assumes "process_raml clock1 base_path loaded fs = Inr fs1"
  shows "\<exists>fs2.
           process_raml clock2 base_path loaded fs1 = Inr fs2
         \<and> process_raml clock2 base_path loaded fs = Inr fs2
         \<and> (\<forall>p. p \<noteq> base_path @ [''index.json''] \<longrightarrow>
               lookup fs2 p = lookup fs1 p
               \<or> (is_md p
                  \<and> (\<exists>i path.
                        lookup fs1 p = Some (File (PlainText (markdown_text (clock1 i) path)))
                      \<and> lookup fs2 p = Some (File (PlainText (markdown_text (clock2 i) path))))))
         \<and> (\<exists>n families.
               lookup fs1 (base_path @ [''index.json''])
                 = Some (File (JsonText (PDict [(''generated_at'', PStr (clock1 n)),
                                                (''families'', PList families)])))
             \<and> lookup fs2 (base_path @ [''index.json''])
                 = Some (File (JsonText (PDict [(''generated_at'', PStr (clock2 n)),
                                                (''families'', PList families)]))))"
proof -
  let ?dirs = "[base_path, joinpath base_path ''docs'', joinpath base_path ''examples'']"
  from assms obtain r1 doc r2 n n' where
    cd: "mkdir_each ?dirs fs = Inr r1"
    and ld: "loaded = Inr doc"
    and sp: "split_raml clock1 base_path doc (r1, 0) = Inr (r2, n)"
    and gi: "generate_index clock1 base_path (r2, n) = Inr (fs1, n')"
    by (auto simp: process_raml_def create_directory_structure_def split: sum.splits)
  from generate_index_grows [OF gi] have g2: "grows r2 fs1" .
  from split_raml_grows [OF sp] g2 have g1: "grows r1 fs1" by (rule grows_trans)
  from mkdir_each_sim [OF cd g1 inv3_start [of fs1 clock1 clock2 fs]] obtain s1 where
    s1: "mkdir_each ?dirs fs = Inr s1" and t1: "mkdir_each ?dirs fs1 = Inr fs1"
    and i1: "inv3 fs1 clock1 clock2 r1 s1 fs1" by blast
  from split_raml_sim [OF sp g2 i1] obtain s2 t2 where
    s2: "split_raml clock2 base_path doc (s1, 0) = Inr (s2, n)"
    and t2: "split_raml clock2 base_path doc (fs1, 0) = Inr (t2, n)"
    and i2: "inv3 fs1 clock1 clock2 r2 s2 t2" by blast
  from generate_index_sim [OF gi i2] obtain X families where
    gs: "generate_index clock2 base_path (s2, n) = Inr (X, n')"
    and gt: "generate_index clock2 base_path (t2, n) = Inr (X, n')"
    and rest: "\<forall>p. p \<noteq> base_path @ [''index.json''] \<longrightarrow>
                 lookup X p = lookup s2 p \<and> lookup fs1 p = lookup r2 p"
    and idx1: "lookup fs1 (base_path @ [''index.json''])
             = Some (File (JsonText (PDict [(''generated_at'', PStr (clock1 n)),
                                            (''families'', PList families)])))"
    and idx2: "lookup X (base_path @ [''index.json''])
             = Some (File (JsonText (PDict [(''generated_at'', PStr (clock2 n)),
                                            (''families'', PList families)])))"
    by blast
  have run1: "process_raml clock2 base_path loaded fs1 = Inr X"
    using t1 ld t2 gt by (simp add: process_raml_def create_directory_structure_def)
  have run2: "process_raml clock2 base_path loaded fs = Inr X"
    using s1 ld s2 gs by (simp add: process_raml_def create_directory_structure_def)
  have files: "lookup X p = lookup fs1 p
               \<or> (is_md p
                  \<and> (\<exists>i path.
                        lookup fs1 p = Some (File (PlainText (markdown_text (clock1 i) path)))
                      \<and> lookup X p = Some (File (PlainText (markdown_text (clock2 i) path)))))"
    if "p \<noteq> base_path @ [''index.json'']" for p
  proof -
    from rest that have a: "lookup X p = lookup s2 p" and b: "lookup fs1 p = lookup r2 p"
      by auto
    from i2 have "(\<not> is_md p \<longrightarrow> lookup s2 p = lookup r2 p)
                  \<and> timestamp_only clock1 clock2 (lookup r2 p) (lookup s2 p)"
      by (simp add: inv3_def agree_def)
    then show ?thesis unfolding a b timestamp_only_def by (cases "is_md p") auto
  qed
  from run1 run2 files idx1 idx2 show ?thesis by blast
qed

theorem rerun_changes_timestamps_only_witness:
  "\<exists>fs1 fs2.
      process_raml morning [''api''] (Inr sample_document) empty_tree = Inr fs1
    \<and> process_raml evening [''api''] (Inr sample_document) fs1 = Inr fs2
    \<and> process_raml evening [''api''] (Inr sample_document) empty_tree = Inr fs2
    \<and> lookup fs2 [''api'', ''interface'', ''ethernet.json'']
        = lookup fs1 [''api'', ''interface'', ''ethernet.json'']"
proof -
  have "succeeds (process_raml morning [''api''] (Inr sample_document) empty_tree)"
    by code_simp
  then obtain fs1 where
    h: "process_raml morning [''api''] (Inr sample_document) empty_tree = Inr fs1"
    by (auto simp: succeeds_def split: sum.splits)
  have p: "[''api'', ''interface'', ''ethernet.json''] \<noteq> [''api''] @ [''index.json'']"
    by simp
  have m: "\<not> is_md [''api'', ''interface'', ''ethernet.json'']"
    by code_simp
  from rerun_changes_timestamps_only [OF h, of evening] obtain fs2 where
    "process_raml evening [''api''] (Inr sample_document) fs1 = Inr fs2"
    "process_raml evening [''api''] (Inr sample_document) empty_tree = Inr fs2"
    "\<forall>p. p \<noteq> [''api''] @ [''index.json''] \<longrightarrow>
         lookup fs2 p = lookup fs1 p
         \<or> (is_md p
            \<and> (\<exists>i path.
                  lookup fs1 p = Some (File (PlainText (markdown_text (morning i) path)))
                \<and> lookup fs2 p = Some (File (PlainText (markdown_text (evening i) path)))))"
    by blast
  with h p m show ?thesis by blast
qed


section \<open>The endpoint descriptors at the end of a run\<close>


















text \<open>
  The endpoint \<^verbatim>\<open>/index\<close> of the family \<^verbatim>\<open>/\<close> meets the same fate: its file is the root
  \<^verbatim>\<open>index.json\<close>, which \<^verbatim>\<open>generate_index\<close> writes last.\<close>

lemma root_index_replaces_descriptor:
  "succeeds (process_raml morning [''api''] (Inr root_index_document) empty_tree)
   \<and> endpoint_file (joinpath [''api''] (strip_slashes ''/'')) ''/index''
       = [''api'', ''index.json'']
   \<and> key_in_file (outcome (process_raml morning [''api''] (Inr root_index_document) empty_tree))
         [''api'', ''index.json''] ''endpoint'' = Inr False"
  by code_simp




section \<open>Further facts about a run of the splitter\<close>

text \<open>
  An endpoint key with a slash inside names a file in a subdirectory of the family
  directory. The splitter creates the family directory and its \<^verbatim>\<open>docs\<close> only, so in a
  fresh tree \<^verbatim>\<open>open\<close> raises \<^verbatim>\<open>FileNotFoundError\<close> and the run stops there.\<close>

lemma nested_endpoint_needs_directory:
  "process_raml morning [''api''] (Inr nested_document) empty_tree = Inl FileNotFoundError"
  by code_simp

text \<open>
  Whatever the document, the tree a run leaves has an entry in the validator's error
  list: the root \<^verbatim>\<open>index.json\<close> is among the files \<^verbatim>\<open>validate_json_files\<close> finds, it is
  not named \<^verbatim>\<open>_index.json\<close>, and so it is checked as an endpoint descriptor.\<close>

lemma grows_dir: "grows r r' \<Longrightarrow> lookup r p = Some Dir \<Longrightarrow> lookup r' p = Some Dir"
  unfolding grows_def by (metis option.distinct(1) same_kind_Dir(2))

lemma index_json_name:
  "name_of (b @ [''index.json'']) = ''index.json''"
  "endswith ''index.json'' ''.json''"
  "''index.json'' \<noteq> ''_index.json''"
  by (simp_all add: name_of_def endswith_def suffix_def)

lemma main_index_as_endpoint_file:
  assumes "lookup fs (b @ [''index.json''])
             = Some (File (JsonText (PDict [(''generated_at'', g), (''families'', f)])))"
  shows "validate_json_file fs (b @ [''index.json'']) []
           = [Missing_required_field ''endpoint'' (b @ [''index.json'']),
              Missing_required_field ''data'' (b @ [''index.json''])]"
  using assms
  by (simp add: validate_json_file_def json_file_checks_def read_json_def index_json_name
      validate_endpoint_file_def)

lemma main_index_in_rglob:
  assumes "lookup fs (b @ [''index.json'']) = Some n" and "is_dir fs b"
  shows "b @ [''index.json''] \<in> set (rglob_suffix fs b ''.json'')"
  using assms
  by (simp add: rglob_suffix_def set_entries index_json_name strict_prefix_def)

lemma round_trip_never_clean:
  assumes "process_raml clock base_path loaded fs = Inr fs'"
  shows "Missing_required_field ''endpoint'' (base_path @ [''index.json''])
           \<in> set (errors (run_validations base_path fs'))"
proof -
  let ?idx = "base_path @ [''index.json'']"
  from assms obtain r0 r1 doc r2 n n' where
    m0: "mkdir_parents True base_path fs = Inr r0"
    and m1: "mkdir_each [joinpath base_path ''docs'', joinpath base_path ''examples''] r0 = Inr r1"
    and sp: "split_raml clock base_path doc (r1, 0) = Inr (r2, n)"
    and gi: "generate_index clock base_path (r2, n) = Inr (fs', n')"
    by (auto simp: process_raml_def create_directory_structure_def split: sum.splits)
  have "lookup r0 base_path = Some Dir" using m0 by (rule mkdir_parents_dir)
  moreover have "grows r0 fs'"
    using mkdir_each_grows [OF m1] split_raml_grows [OF sp] generate_index_grows [OF gi]
    by (blast intro: grows_trans)
  ultimately have d: "is_dir fs' base_path" by (simp add: is_dir_def grows_dir)
  from gi obtain fams where
    "write_file ?idx (JsonText (PDict [(''generated_at'', PStr (clock n)),
                                       (''families'', PList fams)])) r2 = Inr fs'"
    by (auto simp: generate_index_def split: sum.splits)
  then have l: "lookup fs' ?idx = Some (File (JsonText (PDict [(''generated_at'', PStr (clock n)),
                                       (''families'', PList fams)])))"
    by (simp add: write_file_lookup)
  from main_index_in_rglob [OF l d] main_index_as_endpoint_file [OF l]
  show ?thesis
    unfolding run_validations_errors by force
qed

end
